theory Spec2Isabelle
  imports Complex_Main
begin

section \<open>ros_openpose: the two workers of rosOpenpose.cpp\<close>

text \<open>
  The node plugs two workers into the OpenPose wrapper. \<open>WUserInput::workProducer\<close> hands
  the latest colour image of the camera reader to OpenPose; \<open>WUserOutput::workConsumer\<close>
  receives the detected keypoints, looks every keypoint up in the depth image through the
  camera reader and publishes one \<open>Frame\<close> message. The model keeps the state of each
  worker in a record, passes it explicitly, and returns every exception as a value.

  Numbers: the keypoint values, pixel coordinates, scores and 3D coordinates are C++
  \<open>float\<close>. The workers only copy them, so their type is the parameter \<open>'a\<close>, of which
  only the zero of a default-constructed message is used. The loop counters and sizes are
  C++ \<open>int\<close> and are modelled by \<open>int\<close>; lemma \<open>baseIndex_in_volume\<close> shows that on a
  keypoint array of the documented shape every index the consumer computes lies below the
  number of allocated elements, so no computation leaves the range of a machine integer
  that the allocation itself fits in.
\<close>

subsection \<open>Exceptions and log output\<close>

text \<open>
  Both workers catch \<open>const std::exception&\<close> and read \<open>e.what()\<close>. The exceptions of
  the libraries called inside the workers (\<open>op::error\<close> throws \<open>std::runtime_error\<close>,
  \<open>cv::Exception\<close> and \<open>ros::Exception\<close> derive from \<open>std::exception\<close>, the standard
  containers throw \<open>std::length_error\<close> and \<open>std::bad_alloc\<close>) are all of that class, so
  an exception is modelled by its message.
\<close>

datatype std_exception = std_exception (what: string)

text \<open>
  A line of rosconsole output. \<open>ROS_ERROR\<close> carries the four arguments of the format
  string \<open>"Error %s at line number %d on function %s in file %s"\<close>: \<open>e.what()\<close>,
  \<open>__LINE__\<close>, \<open>__FUNCTION__\<close> and \<open>__FILE__\<close>. The compiler puts the path of
  the source file, as the build names it, for \<open>__FILE__\<close>; \<open>FILE\<close> stands for it.
\<close>

datatype log_entry =
    ROS_INFO string
  | ROS_WARN string
  | ROS_ERROR string nat string string
  | ROS_FATAL string

definition FILE :: string where
  "FILE = ''rosOpenpose.cpp''"

subsection \<open>The messages: Frame, Person, BodyPart\<close>

text \<open>
  \<open>ros_openpose/Frame\<close> as the consumer uses it: a header (stamp, frame id) and the
  persons; a person is its body parts; a body part is a score, a pixel and a point.
  A default-constructed message has every number zero and every array empty.
\<close>

record 'a Pixel =
  pixel_x :: 'a
  pixel_y :: 'a

record 'a Point32 =
  point_x :: 'a
  point_y :: 'a
  point_z :: 'a

record 'a BodyPart =
  score :: 'a
  pixel :: "'a Pixel"
  point :: "'a Point32"

record 'a Person =
  bodyParts :: "'a BodyPart list"

record 't Header =
  stamp :: 't
  frame_id :: string

record ('a, 't) Frame =
  header :: "'t Header"
  persons :: "'a Person list"

definition default_BodyPart :: "'a::zero BodyPart" where
  "default_BodyPart =
     \<lparr>score = 0, pixel = \<lparr>pixel_x = 0, pixel_y = 0\<rparr>,
      point = \<lparr>point_x = 0, point_y = 0, point_z = 0\<rparr>\<rparr>"

definition default_Person :: "'a Person" where
  "default_Person = \<lparr>bodyParts = []\<rparr>"

text \<open>
  \<open>std::vector::resize(n)\<close> called with an \<open>int\<close>: a negative count converts to a size
  beyond \<open>max_size()\<close> and the vector throws \<open>std::length_error\<close>; otherwise the vector
  is cut to \<open>n\<close> elements or filled up with default-constructed ones.
\<close>

definition resize :: "int \<Rightarrow> 'b \<Rightarrow> 'b list \<Rightarrow> std_exception + 'b list" where
  "resize n d xs =
     (if n < 0 then Inl (std_exception ''vector::_M_default_append'')
      else Inr (take (nat n) xs @ replicate (nat n - length xs) d))"

subsection \<open>The keypoint array (op::Array)\<close>

text \<open>
  \<open>op::Array<T>\<close> of OpenPose: the sizes of the dimensions and the elements in one flat,
  row-major block. \<open>getSize(i)\<close> is the size of dimension \<open>i\<close>; for an index that is not
  a dimension it is 0 on an empty array and 1 otherwise. \<open>operator[](int)\<close> is the
  checked access of the library (\<open>at\<close>): an index outside the block raises \<open>op::error\<close>,
  a \<open>std::runtime_error\<close>. (Compiled with \<open>NDEBUG\<close> the operator reads the block
  unchecked; what an index outside the block does then is not defined by C++ and not
  described here.) \<open>operator[](std::vector<int>)\<close> folds a multi-index into the flat
  index with \<open>getIndex\<close>, whose loop runs from the last index to the first, and refuses
  more indexes than the array has dimensions.
\<close>

record 'a Array =
  mSize :: "int list"
  pData :: "'a list"

definition getSize :: "'a Array \<Rightarrow> int \<Rightarrow> int" where
  "getSize a i =
     (if 0 \<le> i \<and> nat i < length (mSize a) then mSize a ! nat i
      else if mSize a = [] then 0 else 1)"

definition Array_at :: "'a Array \<Rightarrow> int \<Rightarrow> std_exception + 'a" where
  "Array_at a i =
     (if 0 \<le> i \<and> nat i < length (pData a) then Inr (pData a ! nat i)
      else Inl (std_exception ''Index out of bounds: 0 <= index && index < mVolume''))"

fun getIndex_loop :: "int list \<Rightarrow> int list \<Rightarrow> nat \<Rightarrow> int \<Rightarrow> int \<Rightarrow> int" where
  "getIndex_loop sizes indexes 0 index accumulated = index"
| "getIndex_loop sizes indexes (Suc i) index accumulated =
     getIndex_loop sizes indexes i (index + accumulated * indexes ! i) (accumulated * sizes ! i)"

definition getIndex :: "'a Array \<Rightarrow> int list \<Rightarrow> int" where
  "getIndex a indexes = getIndex_loop (mSize a) indexes (length indexes) 0 1"

definition Array_at_indexes :: "'a Array \<Rightarrow> int list \<Rightarrow> std_exception + 'a" where
  "Array_at_indexes a indexes =
     (if length (mSize a) < length indexes
      then Inl (std_exception ''Requested indexes size is bigger than Array size.'')
      else Array_at a (getIndex a indexes))"

text \<open>
  The shape OpenPose documents for \<open>Datum::poseKeypoints\<close>: empty when nobody was
  detected, otherwise people \<open>\<times>\<close> body parts \<open>\<times>\<close> (x, y, score), with one element
  allocated for every index. The last dimension is 3 in OpenPose; any size from 3 on
  serves the consumer.
\<close>

definition poseKeypoints_shape :: "'a Array \<Rightarrow> bool" where
  "poseKeypoints_shape a \<longleftrightarrow>
     (mSize a = [] \<and> pData a = []) \<or>
     (length (mSize a) = 3 \<and> 0 \<le> mSize a ! 0 \<and> 0 \<le> mSize a ! 1 \<and> 3 \<le> mSize a ! 2 \<and>
      int (length (pData a)) = mSize a ! 0 * mSize a ! 1 * mSize a ! 2)"

text \<open>The flat index of line 141 of the consumer.\<close>

definition baseIndex :: "'a Array \<Rightarrow> int \<Rightarrow> int \<Rightarrow> int \<Rightarrow> int" where
  "baseIndex poseKeypoints bodyPartCount person bodyPart =
     getSize poseKeypoints 2 * (person * bodyPartCount + bodyPart)"

subsection \<open>Images and datums\<close>

text \<open>
  \<open>cv::Mat\<close> as far as the workers look at it: the header (rows, columns) and the
  pixel block. \<open>empty()\<close> of OpenCV is \<open>data == 0 || total() == 0\<close>. Assigning a
  \<open>cv::Mat\<close> shares the block, so the copy is the same value.
\<close>

record 'px Mat =
  rows :: int
  cols :: int
  data :: "'px list"

definition Mat_empty :: "'px Mat \<Rightarrow> bool" where
  "Mat_empty m \<longleftrightarrow> data m = [] \<or> rows m * cols m = 0"

text \<open>
  \<open>op::Datum\<close>, the two members the workers touch. A default-constructed datum has an
  empty image and an empty keypoint array. \<open>sPtrVecSPtrDatum\<close> is a shared pointer to a
  vector of shared pointers: the outer pointer is an \<open>option\<close> (\<open>None\<close> is
  \<open>nullptr\<close>); the elements are the datums themselves, as the wrapper never hands an
  element that is null to a worker.
\<close>

record ('px, 'a) Datum =
  cvInputData :: "'px Mat"
  poseKeypoints :: "'a Array"

definition default_Datum :: "('px, 'a) Datum" where
  "default_Datum =
     \<lparr>cvInputData = \<lparr>rows = 0, cols = 0, data = []\<rparr>,
      poseKeypoints = \<lparr>mSize = [], pData = []\<rparr>\<rparr>"

subsection \<open>The camera reader\<close>

text \<open>
  \<open>ros_openpose::CameraReader\<close> is declared in \<open>cameraReader.hpp\<close>, which is not among
  the sources at hand. The workers reach it through three member functions only, so the
  class is a parameter of the model: \<open>'cam\<close> is the state of the shared reader object
  (the images its subscribers stored last, the depth image in use, the calibration) and
  the record holds the three member functions, each of which may raise.
  \<open>compute3DPoint(x, y, point3D)\<close> fills the caller's array \<open>point3D\<close>; the model
  returns the three numbers.
\<close>

record ('cam, 'px, 'a) CameraReader =
  getColorFrame :: "'cam \<Rightarrow> std_exception + 'px Mat"
  copyLatestDepthImage :: "'cam \<Rightarrow> std_exception + 'cam"
  compute3DPoint :: "'cam \<Rightarrow> 'a \<Rightarrow> 'a \<Rightarrow> std_exception + 'a \<times> 'a \<times> 'a"

subsection \<open>WUserInput: the producer\<close>

text \<open>
  The state of the producer: the reader it points to, the running flag of
  \<open>op::Worker\<close> (cleared by \<open>stop()\<close>) and the log it has written.
  \<open>ROS_WARN_THROTTLE(10, ...)\<close> prints at most once in ten seconds; whether the
  throttle lets the line through at this call is the input \<open>throttle\<close>. The sleep of one
  millisecond has no effect on the state.
\<close>

record 'cam WUserInput =
  producer_CameraReader :: 'cam
  producer_isRunning :: bool
  producer_rosout :: "log_entry list"

text \<open>The body of the \<open>try\<close> block, lines 44 to 68.\<close>

definition workProducer_try ::
  "('cam, 'px, 'a) CameraReader \<Rightarrow> bool \<Rightarrow> 'cam WUserInput \<Rightarrow>
   (std_exception + ('px, 'a) Datum list option) \<times> 'cam WUserInput" where
  "workProducer_try reader throttle w =
     (case getColorFrame reader (producer_CameraReader w) of
        Inl e \<Rightarrow> (Inl e, w)
      | Inr colorImage \<Rightarrow>
          if \<not> Mat_empty colorImage
          then (Inr (Some [default_Datum\<lparr>cvInputData := colorImage\<rparr>]), w)
          else (Inr None,
                w\<lparr>producer_rosout := producer_rosout w @
                   (if throttle
                    then [ROS_WARN ''Empty color image frame detected. Ignoring...'']
                    else [])\<rparr>))"

text \<open>The whole member function: the \<open>try\<close> block and its handler, lines 70 to 75.\<close>

definition workProducer ::
  "('cam, 'px, 'a) CameraReader \<Rightarrow> bool \<Rightarrow> 'cam WUserInput \<Rightarrow>
   ('px, 'a) Datum list option \<times> 'cam WUserInput" where
  "workProducer reader throttle w =
     (case workProducer_try reader throttle w of
        (Inr datumsPtr, w') \<Rightarrow> (datumsPtr, w')
      | (Inl e, w') \<Rightarrow>
          (None,
           w'\<lparr>producer_isRunning := False,
              producer_rosout := producer_rosout w' @
                [ROS_ERROR (what e) 73 ''workProducer'' FILE]\<rparr>))"

subsection \<open>WUserOutput: the consumer\<close>

text \<open>
  The state of the consumer: the frame message it reuses, the messages it has handed to
  the publisher (oldest first), the reader it points to, the running flag and the log.
\<close>

record ('a, 't, 'cam) WUserOutput =
  mFrame :: "('a, 't) Frame"
  published :: "('a, 't) Frame list"
  consumer_CameraReader :: 'cam
  consumer_isRunning :: bool
  consumer_rosout :: "log_entry list"

text \<open>The constructor, lines 89 to 95: a default frame whose frame id is set.\<close>

definition WUserOutput ::
  "('a, 't::zero) Frame list \<Rightarrow> 'cam \<Rightarrow> string \<Rightarrow> ('a, 't, 'cam) WUserOutput" where
  "WUserOutput framePublisher sPtrCameraReader frameId =
     \<lparr>mFrame = \<lparr>header = \<lparr>stamp = 0, frame_id = frameId\<rparr>, persons = []\<rparr>,
      published = framePublisher,
      consumer_CameraReader = sPtrCameraReader,
      consumer_isRunning = True,
      consumer_rosout = []\<rparr>"

text \<open>
  Lines 149 to 154 assign the six numbers of \<open>persons[person].bodyParts[bodyPart]\<close>.
  Both subscripts are in range whenever the loops reach them: \<open>persons\<close> was resized to
  \<open>personCount\<close> and the person's \<open>bodyParts\<close> to \<open>bodyPartCount\<close>.
\<close>

definition set_bodyPart :: "'a \<Rightarrow> 'a \<Rightarrow> 'a \<Rightarrow> 'a \<times> 'a \<times> 'a \<Rightarrow> 'a BodyPart \<Rightarrow> 'a BodyPart" where
  "set_bodyPart x y sc point3D bp =
     bp\<lparr>pixel := (pixel bp)\<lparr>pixel_x := x, pixel_y := y\<rparr>,
        score := sc,
        point := (point bp)\<lparr>point_x := fst point3D,
                             point_y := fst (snd point3D),
                             point_z := snd (snd point3D)\<rparr>\<rparr>"

definition update_bodyPart ::
  "int \<Rightarrow> int \<Rightarrow> ('a BodyPart \<Rightarrow> 'a BodyPart) \<Rightarrow> 'a Person list \<Rightarrow> 'a Person list" where
  "update_bodyPart person bodyPart f ps =
     ps[nat person := (ps ! nat person)
          \<lparr>bodyParts := (bodyParts (ps ! nat person))
             [nat bodyPart := f (bodyParts (ps ! nat person) ! nat bodyPart)]\<rparr>]"

text \<open>
  The inner loop, lines 131 to 155, from \<open>bodyPart\<close> on. It returns the exception that
  ended it, if any, and the persons as they are then.
\<close>

function bodyPartLoop ::
  "('cam, 'px, 'a) CameraReader \<Rightarrow> 'cam \<Rightarrow> 'a Array \<Rightarrow> int \<Rightarrow> int \<Rightarrow> int \<Rightarrow>
   'a Person list \<Rightarrow> std_exception option \<times> 'a Person list" where
  "bodyPartLoop reader cam kp bodyPartCount person bodyPart ps =
     (if bodyPart < bodyPartCount then
        (case Array_at kp (baseIndex kp bodyPartCount person bodyPart) of
           Inl e \<Rightarrow> (Some e, ps)
         | Inr x \<Rightarrow>
        (case Array_at kp (baseIndex kp bodyPartCount person bodyPart + 1) of
           Inl e \<Rightarrow> (Some e, ps)
         | Inr y \<Rightarrow>
        (case Array_at kp (baseIndex kp bodyPartCount person bodyPart + 2) of
           Inl e \<Rightarrow> (Some e, ps)
         | Inr sc \<Rightarrow>
        (case compute3DPoint reader cam x y of
           Inl e \<Rightarrow> (Some e, ps)
         | Inr point3D \<Rightarrow>
             bodyPartLoop reader cam kp bodyPartCount person (bodyPart + 1)
               (update_bodyPart person bodyPart (set_bodyPart x y sc point3D) ps)))))
      else (None, ps))"
  by pat_completeness auto
termination
  by (relation "measure (\<lambda>(reader, cam, kp, bodyPartCount, person, bodyPart, ps).
        nat (bodyPartCount - bodyPart))") auto

declare bodyPartLoop.simps [simp del]

text \<open>The outer loop, lines 127 to 156, from \<open>person\<close> on.\<close>

function personLoop ::
  "('cam, 'px, 'a::zero) CameraReader \<Rightarrow> 'cam \<Rightarrow> 'a Array \<Rightarrow> int \<Rightarrow> int \<Rightarrow> int \<Rightarrow>
   'a Person list \<Rightarrow> std_exception option \<times> 'a Person list" where
  "personLoop reader cam kp personCount bodyPartCount person ps =
     (if person < personCount then
        (case resize bodyPartCount default_BodyPart (bodyParts (ps ! nat person)) of
           Inl e \<Rightarrow> (Some e, ps)
         | Inr bps \<Rightarrow>
        (case bodyPartLoop reader cam kp bodyPartCount person 0
                (ps[nat person := (ps ! nat person)\<lparr>bodyParts := bps\<rparr>]) of
           (Some e, ps') \<Rightarrow> (Some e, ps')
         | (None, ps') \<Rightarrow>
             personLoop reader cam kp personCount bodyPartCount (person + 1) ps'))
      else (None, ps))"
  by pat_completeness auto
termination
  by (relation "measure (\<lambda>(reader, cam, kp, personCount, bodyPartCount, person, ps).
        nat (personCount - person))") auto

declare personLoop.simps [simp del]

text \<open>
  The body of the \<open>try\<close> block, lines 106 to 159. \<open>now\<close> is what \<open>ros::Time::now()\<close>
  returns at this call. The result is the exception that ended the block, if any, and the
  state as it is then.
\<close>

definition workConsumer_try ::
  "('cam, 'px, 'a::zero) CameraReader \<Rightarrow> 't \<Rightarrow> ('px, 'a) Datum list option \<Rightarrow>
   ('a, 't, 'cam) WUserOutput \<Rightarrow> std_exception option \<times> ('a, 't, 'cam) WUserOutput" where
  "workConsumer_try reader now datumsPtr w =
     (case datumsPtr of
        None \<Rightarrow> (None, w)
      | Some datums \<Rightarrow>
          if datums = [] then (None, w)
          else
            (let w1 = w\<lparr>mFrame := (mFrame w)
                         \<lparr>header := (header (mFrame w))\<lparr>stamp := now\<rparr>, persons := []\<rparr>\<rparr>
             in case copyLatestDepthImage reader (consumer_CameraReader w1) of
                  Inl e \<Rightarrow> (Some e, w1)
                | Inr cam \<Rightarrow>
                    (let w2 = w1\<lparr>consumer_CameraReader := cam\<rparr>;
                         personCount = getSize (poseKeypoints (datums ! 0)) 0;
                         bodyPartCount = getSize (poseKeypoints (datums ! 0)) 1
                     in case resize personCount default_Person (persons (mFrame w2)) of
                          Inl e \<Rightarrow> (Some e, w2)
                        | Inr ps \<Rightarrow>
                            (case personLoop reader cam (poseKeypoints (datums ! 0))
                                    personCount bodyPartCount 0 ps of
                               (Some e, ps') \<Rightarrow>
                                 (Some e, w2\<lparr>mFrame := (mFrame w2)\<lparr>persons := ps'\<rparr>\<rparr>)
                             | (None, ps') \<Rightarrow>
                                 (None,
                                  w2\<lparr>mFrame := (mFrame w2)\<lparr>persons := ps'\<rparr>,
                                     published := published w2 @
                                       [(mFrame w2)\<lparr>persons := ps'\<rparr>]\<rparr>)))))"

text \<open>The whole member function: the \<open>try\<close> block and its handler, lines 161 to 165.\<close>

definition workConsumer ::
  "('cam, 'px, 'a::zero) CameraReader \<Rightarrow> 't \<Rightarrow> ('px, 'a) Datum list option \<Rightarrow>
   ('a, 't, 'cam) WUserOutput \<Rightarrow> ('a, 't, 'cam) WUserOutput" where
  "workConsumer reader now datumsPtr w =
     (case workConsumer_try reader now datumsPtr w of
        (None, w') \<Rightarrow> w'
      | (Some e, w') \<Rightarrow>
          w'\<lparr>consumer_isRunning := False,
             consumer_rosout := consumer_rosout w' @
               [ROS_ERROR (what e) 164 ''workConsumer'' FILE]\<rparr>)"

text \<open>
  The wrapper calls a worker only while its running flag is set
  (\<open>op::Worker::checkAndWork\<close>). A run of the consumer is the sequence of its calls;
  between two calls the subscribers of the reader store new images, so every call comes
  with the time, the state of the reader and the datums it finds.
\<close>

fun run_consumer ::
  "('cam, 'px, 'a::zero) CameraReader \<Rightarrow> ('t \<times> 'cam \<times> ('px, 'a) Datum list option) list \<Rightarrow>
   ('a, 't, 'cam) WUserOutput \<Rightarrow> ('a, 't, 'cam) WUserOutput" where
  "run_consumer reader [] w = w"
| "run_consumer reader ((now, cam, datumsPtr) # calls) w =
     (if consumer_isRunning w
      then run_consumer reader calls
             (workConsumer reader now datumsPtr (w\<lparr>consumer_CameraReader := cam\<rparr>))
      else w)"

subsection \<open>What a frame should hold\<close>

text \<open>
  The keypoint value \<open>c\<close> places after the flat index of (person, bodyPart), the body part
  built from the three values of a keypoint and its 3D point, and the persons of a whole
  keypoint array. \<open>compute3DPoint_returns\<close> says that the reader raises nothing on the
  pixels of the array.
\<close>

definition keypoint :: "'a Array \<Rightarrow> int \<Rightarrow> int \<Rightarrow> int \<Rightarrow> 'a" where
  "keypoint kp person bodyPart c =
     pData kp ! nat (baseIndex kp (getSize kp 1) person bodyPart + c)"

definition keypoint_bodyPart ::
  "('cam, 'px, 'a) CameraReader \<Rightarrow> 'cam \<Rightarrow> 'a Array \<Rightarrow> int \<Rightarrow> int \<Rightarrow> 'a BodyPart" where
  "keypoint_bodyPart reader cam kp p b =
     (let point3D = projr (compute3DPoint reader cam (keypoint kp p b 0) (keypoint kp p b 1))
      in \<lparr>score = keypoint kp p b 2,
          pixel = \<lparr>pixel_x = keypoint kp p b 0, pixel_y = keypoint kp p b 1\<rparr>,
          point = \<lparr>point_x = fst point3D, point_y = fst (snd point3D),
                   point_z = snd (snd point3D)\<rparr>\<rparr>)"

definition keypoint_persons ::
  "('cam, 'px, 'a) CameraReader \<Rightarrow> 'cam \<Rightarrow> 'a Array \<Rightarrow> 'a Person list" where
  "keypoint_persons reader cam kp =
     map (\<lambda>p. \<lparr>bodyParts = map (keypoint_bodyPart reader cam kp p) [0 .. getSize kp 1 - 1]\<rparr>)
       [0 .. getSize kp 0 - 1]"

definition compute3DPoint_returns ::
  "('cam, 'px, 'a) CameraReader \<Rightarrow> 'cam \<Rightarrow> 'a Array \<Rightarrow> bool" where
  "compute3DPoint_returns reader cam kp \<longleftrightarrow>
     (\<forall>p \<in> {0 ..< getSize kp 0}. \<forall>b \<in> {0 ..< getSize kp 1}.
        \<not> isl (compute3DPoint reader cam (keypoint kp p b 0) (keypoint kp p b 1)))"

text \<open>The body part at (person, bodyPart) of a frame.\<close>

definition bodyPart_at :: "('a, 't) Frame \<Rightarrow> int \<Rightarrow> int \<Rightarrow> 'a BodyPart" where
  "bodyPart_at fr person bodyPart = bodyParts (persons fr ! nat person) ! nat bodyPart"

text \<open>
  What the consumer is to store in a body part: the three values the keypoint array
  returns at the flat index of (person, bodyPart) and the two places after it, and the
  three numbers \<open>compute3DPoint\<close> returns for that pixel. A frame matches a keypoint array
  when it has one person for each person of the array, in the same order, every person
  has one body part for each body part of the array, in the same order, and every body
  part matches its keypoint.
\<close>

definition bodyPart_matches ::
  "('cam, 'px, 'a) CameraReader \<Rightarrow> 'cam \<Rightarrow> 'a Array \<Rightarrow> int \<Rightarrow> int \<Rightarrow> int \<Rightarrow> 'a BodyPart \<Rightarrow> bool"
  where
  "bodyPart_matches reader cam kp bodyPartCount person bodyPart bp \<longleftrightarrow>
     Array_at kp (baseIndex kp bodyPartCount person bodyPart) = Inr (pixel_x (pixel bp)) \<and>
     Array_at kp (baseIndex kp bodyPartCount person bodyPart + 1) = Inr (pixel_y (pixel bp)) \<and>
     Array_at kp (baseIndex kp bodyPartCount person bodyPart + 2) = Inr (score bp) \<and>
     compute3DPoint reader cam (pixel_x (pixel bp)) (pixel_y (pixel bp)) =
       Inr (point_x (point bp), point_y (point bp), point_z (point bp))"

definition frame_matches ::
  "('cam, 'px, 'a) CameraReader \<Rightarrow> 'cam \<Rightarrow> 'a Array \<Rightarrow> ('a, 't) Frame \<Rightarrow> bool" where
  "frame_matches reader cam kp fr \<longleftrightarrow>
     length (persons fr) = nat (getSize kp 0) \<and>
     (\<forall>p \<in> {0 ..< getSize kp 0}.
        length (bodyParts (persons fr ! nat p)) = nat (getSize kp 1) \<and>
        (\<forall>b \<in> {0 ..< getSize kp 1}.
           bodyPart_matches reader cam kp (getSize kp 1) p b (bodyPart_at fr p b)))"

text \<open>The frames a call has published: those of \<open>w'\<close> that \<open>w\<close> did not have yet.\<close>

definition published_by ::
  "('a, 't, 'cam) WUserOutput \<Rightarrow> ('a, 't, 'cam) WUserOutput \<Rightarrow> ('a, 't) Frame list" where
  "published_by w w' = drop (length (published w)) (published w')"

text \<open>
  What lines 121 to 156 compute once the depth image is copied: the persons, starting from
  the cleared list, and the exception that ended the loops, if any.
\<close>

definition fill_persons ::
  "('cam, 'px, 'a::zero) CameraReader \<Rightarrow> 'cam \<Rightarrow> 'a Array \<Rightarrow>
   std_exception option \<times> 'a Person list" where
  "fill_persons reader cam kp =
     (case resize (getSize kp 0) default_Person [] of
        Inl e \<Rightarrow> (Some e, [])
      | Inr ps \<Rightarrow> personLoop reader cam kp (getSize kp 0) (getSize kp 1) 0 ps)"

subsection \<open>main\<close>

text \<open>
  \<open>main\<close> as the sequence of what it does to the outside. \<open>nh.getParam(key, s)\<close> leaves
  the empty string in \<open>s\<close> when the parameter server has no string under \<open>key\<close>. An
  exception inside the \<open>try\<close> block of lines 388 to 411 is the input \<open>failure\<close>: the
  number of the action that raises and the exception.
\<close>

datatype action =
    ros_init string
  | Log log_entry
  | Exit int
  | set_FLAGS_model_folder string
  | ParseCommandLineFlags
  | new_CameraReader string string string
  | advertise string
  | new_Wrapper
  | configureOpenPose string
  | Wrapper_start
  | ros_spin
  | Wrapper_stop
  | Return int

definition getParam :: "(string \<rightharpoonup> string) \<Rightarrow> string \<Rightarrow> string" where
  "getParam nh key = (case nh key of None \<Rightarrow> [] | Some v \<Rightarrow> v)"

definition main_try :: "string \<Rightarrow> action list" where
  "main_try frameId =
     [Log (ROS_INFO ''Starting ros_openpose...''), new_Wrapper, configureOpenPose frameId,
      Wrapper_start, ros_spin, Log (ROS_INFO ''Exiting ros_openpose...''), Wrapper_stop,
      Return 0]"

definition main :: "(string \<rightharpoonup> string) \<Rightarrow> (nat \<times> std_exception) option \<Rightarrow> action list" where
  "main nh failure =
     (let openposeModelDir = getParam nh ''openpose_model_dir'';
          colorTopic = getParam nh ''color_topic'';
          depthTopic = getParam nh ''depth_topic'';
          camInfoTopic = getParam nh ''cam_info_topic'';
          frameId = getParam nh ''frame_id'';
          pubTopic = getParam nh ''pub_topic''
      in ros_init ''ros_openpose_node'' #
         (if openposeModelDir = []
          then [Log (ROS_FATAL ''Missing 'openpose_model_dir' info in launch file''),
                Exit (- 1)]
          else [set_FLAGS_model_folder openposeModelDir, ParseCommandLineFlags,
                new_CameraReader colorTopic depthTopic camInfoTopic, advertise pubTopic] @
               (case failure of
                  None \<Rightarrow> main_try frameId
                | Some (k, e) \<Rightarrow>
                    if k < length (main_try frameId)
                    then take k (main_try frameId) @
                         [Log (ROS_ERROR (what e) 409 ''main'' FILE), Return (- 1)]
                    else main_try frameId)))"

text \<open>
  The parameters of \<open>run.launch\<close> without the model directory, and with it.
\<close>

definition example_params :: "string \<rightharpoonup> string" where
  "example_params =
     [''color_topic'' \<mapsto> ''/camera/color/image_raw'',
      ''depth_topic'' \<mapsto> ''/camera/aligned_depth_to_color/image_raw'',
      ''cam_info_topic'' \<mapsto> ''/camera/color/camera_info'',
      ''frame_id'' \<mapsto> ''camera_color_optical_frame'',
      ''pub_topic'' \<mapsto> ''/frame'']"

definition example_params_dir :: "string \<rightharpoonup> string" where
  "example_params_dir =
     example_params(''openpose_model_dir'' \<mapsto> ''/home/ravi/tools/openpose/models/'')"

subsection \<open>The projection of the camera reader\<close>

text \<open>
  Modelled from the spec: the members of \<open>ros_openpose::CameraReader\<close>, declared in
  \<open>cameraReader.hpp\<close>, which is not among the sources at hand. The spec says that the
  reader "exposes the latest color/depth images" and that the projection takes "a
  calibrated camera intrinsic matrix". So the reader holds the latest colour image, the
  latest depth image and the depth image in use (a depth image gives the depth value
  matching a pixel), and the entries \<open>fx\<close>, \<open>fy\<close>, \<open>cx\<close>, \<open>cy\<close> of the intrinsic matrix.
  The arithmetic of the C++ \<open>float\<close> is modelled by the reals: rounding is outside the
  model.
\<close>

record 'px Camera =
  mColorImage :: "'px Mat"
  mDepthImage :: "real \<Rightarrow> real \<Rightarrow> real"
  mDepthImageUsed :: "real \<Rightarrow> real \<Rightarrow> real"
  fx :: real
  fy :: real
  cx :: real
  cy :: real

text \<open>
  Modelled from the spec: the formula of \<open>compute3DPoint\<close>, which the spec names and does
  not write out. The pinhole projection of a point (X, Y, Z) of the optical frame onto the
  image is the pixel (fx X / Z + cx, fy Y / Z + cy); its inverse for a pixel (u, v) of
  known depth z is the point ((u - cx) z / fx, (v - cy) z / fy, z).
\<close>

definition pinhole_projection :: "'px Camera \<Rightarrow> real \<times> real \<times> real \<Rightarrow> real \<times> real" where
  "pinhole_projection cam P =
     (fx cam * fst P / snd (snd P) + cx cam, fy cam * fst (snd P) / snd (snd P) + cy cam)"

definition inverse_pinhole_projection ::
  "'px Camera \<Rightarrow> real \<Rightarrow> real \<Rightarrow> real \<Rightarrow> real \<times> real \<times> real" where
  "inverse_pinhole_projection cam u v z =
     ((u - cx cam) * z / fx cam, (v - cy cam) * z / fy cam, z)"

text \<open>
  Modelled from the spec: \<open>CameraReader::getColorFrame\<close>, \<open>copyLatestDepthImage\<close> and
  \<open>compute3DPoint\<close> of \<open>cameraReader.hpp\<close>. The spec says that the reader "exposes the
  latest color/depth images", that the node "looks up matching depth values, and projects
  each keypoint into 3D camera coordinates", and that the projection is of "a 2D pixel +
  depth value into a 3D point via a calibrated camera intrinsic matrix", the "inverse
  pinhole projection". None of the three raises.
\<close>

definition spec_CameraReader :: "('px Camera, 'px, real) CameraReader" where
  "spec_CameraReader =
     \<lparr>getColorFrame = (\<lambda>cam. Inr (mColorImage cam)),
      copyLatestDepthImage = (\<lambda>cam. Inr (cam\<lparr>mDepthImageUsed := mDepthImage cam\<rparr>)),
      compute3DPoint = (\<lambda>cam x y.
        Inr (inverse_pinhole_projection cam x y (mDepthImageUsed cam x y)))\<rparr>"

subsection \<open>A frame and a camera to try the workers on\<close>

text \<open>
  One person with two body parts; a second array whose only keypoint lies left of the
  image. The reader of the example keeps the latest depth and the depth in use as two
  numbers, multiplies a pixel by the depth in use, and raises on a negative pixel column.
\<close>

definition example_keypoints :: "int Array" where
  "example_keypoints = \<lparr>mSize = [1, 2, 3], pData = [10, 20, 9, 30, 40, 8]\<rparr>"

definition example_keypoints_outside :: "int Array" where
  "example_keypoints_outside = \<lparr>mSize = [1, 1, 3], pData = [- 1, 5, 9]\<rparr>"

definition example_image :: "int Mat" where
  "example_image = \<lparr>rows = 1, cols = 2, data = [7, 8]\<rparr>"

definition example_reader :: "std_exception + int Mat \<Rightarrow> (int \<times> int, int, int) CameraReader" where
  "example_reader color =
     \<lparr>getColorFrame = (\<lambda>cam. color),
      copyLatestDepthImage = (\<lambda>cam. Inr (fst cam, fst cam)),
      compute3DPoint = (\<lambda>cam x y.
        if x < 0 then Inl (std_exception ''pixel outside the depth image'')
        else Inr (x * snd cam, y * snd cam, snd cam))\<rparr>"

definition example_datum :: "int Array \<Rightarrow> (int, int) Datum" where
  "example_datum kp = \<lparr>cvInputData = example_image, poseKeypoints = kp\<rparr>"

definition example_producer :: "(int \<times> int) WUserInput" where
  "example_producer =
     \<lparr>producer_CameraReader = (4, 0), producer_isRunning = True, producer_rosout = []\<rparr>"

definition example_consumer :: "(int, int, int \<times> int) WUserOutput" where
  "example_consumer = WUserOutput [] (4, 0) ''camera_color_optical_frame''"

text \<open>
  An empty image, and a consumer that has run before: its frame still holds two persons,
  it has published one frame, and the depth in use is an older one.
\<close>

definition example_empty_image :: "int Mat" where
  "example_empty_image = \<lparr>rows = 0, cols = 0, data = []\<rparr>"

definition example_consumer_used :: "(int, int, int \<times> int) WUserOutput" where
  "example_consumer_used =
     \<lparr>mFrame = \<lparr>header = \<lparr>stamp = 50, frame_id = ''camera_color_optical_frame''\<rparr>,
                 persons = [\<lparr>bodyParts = []\<rparr>, \<lparr>bodyParts = [default_BodyPart]\<rparr>]\<rparr>,
      published = [\<lparr>header = \<lparr>stamp = 50, frame_id = ''camera_color_optical_frame''\<rparr>,
                    persons = [\<lparr>bodyParts = []\<rparr>, \<lparr>bodyParts = [default_BodyPart]\<rparr>]\<rparr>],
      consumer_CameraReader = (4, 3),
      consumer_isRunning = True,
      consumer_rosout = []\<rparr>"

text \<open>
  A camera with focal lengths 10 and principal point (5, 5) whose latest depth image is 2
  everywhere, and one person with two body parts seen by it.
\<close>

definition example_camera :: "int Camera" where
  "example_camera =
     \<lparr>mColorImage = example_image, mDepthImage = (\<lambda>u v. 2), mDepthImageUsed = (\<lambda>u v. 0),
      fx = 10, fy = 10, cx = 5, cy = 5\<rparr>"

definition example_keypoints_real :: "real Array" where
  "example_keypoints_real = \<lparr>mSize = [1, 2, 3], pData = [15, 25, 1, 35, 45, 1]\<rparr>"

definition example_datum_real :: "(int, real) Datum" where
  "example_datum_real = \<lparr>cvInputData = example_image, poseKeypoints = example_keypoints_real\<rparr>"

definition example_consumer_real :: "(real, int, int Camera) WUserOutput" where
  "example_consumer_real = WUserOutput [] example_camera ''camera_color_optical_frame''"

section \<open>Properties\<close>

subsection \<open>Flat and multi-index access\<close>

lemma getIndex_three:
  "getIndex a [p, b, c] = c + mSize a ! 2 * b + mSize a ! 2 * mSize a ! 1 * p"
  by (simp add: getIndex_def numeral_2_eq_2 algebra_simps)

lemma baseIndex_getIndex:
  assumes "3 \<le> length (mSize a)"
  shows "baseIndex a (getSize a 1) p b + c = getIndex a [p, b, c]"
  using assms by (simp add: baseIndex_def getSize_def getIndex_three algebra_simps)

lemma baseIndex_in_volume:
  assumes shape: "poseKeypoints_shape a"
    and p: "0 \<le> p" "p < getSize a 0"
    and b: "0 \<le> b" "b < getSize a 1"
    and c: "0 \<le> c" "c < 3"
  shows "0 \<le> baseIndex a (getSize a 1) p b + c \<and>
         baseIndex a (getSize a 1) p b + c < int (length (pData a))"
proof -
  from shape p have three: "length (mSize a) = 3"
    by (auto simp: poseKeypoints_shape_def getSize_def)
  define P where "P = mSize a ! 0"
  define B where "B = mSize a ! 1"
  define C where "C = mSize a ! 2"
  from three have sz: "getSize a 0 = P" "getSize a 1 = B" "getSize a 2 = C"
    by (simp_all add: getSize_def P_def B_def C_def)
  from shape three have C3: "3 \<le> C" and vol: "int (length (pData a)) = P * B * C"
    by (auto simp: poseKeypoints_shape_def P_def B_def C_def)
  have idx: "baseIndex a (getSize a 1) p b = C * (p * B + b)"
    by (simp add: baseIndex_def sz)
  from p b sz have pb: "0 \<le> p * B + b" by simp
  have "p * B + b + 1 \<le> (p + 1) * B"
    using b sz by (simp add: algebra_simps)
  also have "\<dots> \<le> P * B"
    using p b sz by (intro mult_right_mono) auto
  finally have le: "p * B + b + 1 \<le> P * B" .
  have "C * (p * B + b) + c < C * (p * B + b) + C"
    using c C3 by simp
  also have "\<dots> = C * (p * B + b + 1)"
    by (simp add: algebra_simps)
  also have "\<dots> \<le> C * (P * B)"
    using le C3 by (intro mult_left_mono) auto
  finally have "C * (p * B + b) + c < P * B * C"
    by (simp add: algebra_simps)
  moreover have "0 \<le> C * (p * B + b) + c"
    using pb C3 c by simp
  ultimately show ?thesis
    by (simp add: idx vol)
qed

lemma Array_at_keypoint:
  assumes "poseKeypoints_shape kp" "0 \<le> p" "p < getSize kp 0" "0 \<le> b" "b < getSize kp 1"
    "0 \<le> c" "c < 3"
  shows "Array_at kp (baseIndex kp (getSize kp 1) p b + c) = Inr (keypoint kp p b c)"
  using baseIndex_in_volume [OF assms]
  by (simp add: Array_at_def keypoint_def nat_less_iff)

subsection \<open>The loops on an array of the documented shape\<close>

text \<open>
  On such an array every read is in range; if the reader raises nothing either, the loops
  end without an exception and leave exactly the persons of the keypoints.
\<close>

lemma set_bodyPart_keypoint:
  assumes "compute3DPoint reader cam (keypoint kp p b 0) (keypoint kp p b 1) = Inr point3D"
  shows "set_bodyPart (keypoint kp p b 0) (keypoint kp p b 1) (keypoint kp p b 2) point3D bp =
         keypoint_bodyPart reader cam kp p b"
  using assms by (simp add: keypoint_bodyPart_def set_bodyPart_def)

lemma bodyPartLoop_fills:
  assumes "B = getSize kp 1" "poseKeypoints_shape kp" "0 \<le> person" "person < getSize kp 0"
    "0 \<le> bodyPart" "nat person < length ps"
    "length (bodyParts (ps ! nat person)) = nat B"
    "\<forall>b. bodyPart \<le> b \<and> b < B \<longrightarrow>
       \<not> isl (compute3DPoint reader cam (keypoint kp person b 0) (keypoint kp person b 1))"
  shows "\<exists>ps'. bodyPartLoop reader cam kp B person bodyPart ps = (None, ps') \<and>
     length ps' = length ps \<and> (\<forall>i. i \<noteq> nat person \<longrightarrow> ps' ! i = ps ! i) \<and>
     length (bodyParts (ps' ! nat person)) = nat B \<and>
     (\<forall>j < nat B. bodyParts (ps' ! nat person) ! j =
        (if nat bodyPart \<le> j then keypoint_bodyPart reader cam kp person (int j)
         else bodyParts (ps ! nat person) ! j))"
  using assms
proof (induction reader cam kp B person bodyPart ps rule: bodyPartLoop.induct)
  case (1 reader cam kp B person bodyPart ps)
  show ?case
  proof (cases "bodyPart < B")
    case False
    then show ?thesis
      using "1.prems" by (subst bodyPartLoop.simps) auto
  next
    case True
    let ?bi = "baseIndex kp B person bodyPart"
    have x: "Array_at kp ?bi = Inr (keypoint kp person bodyPart 0)"
      using Array_at_keypoint [of kp person bodyPart 0] 1 True by simp
    have y: "Array_at kp (?bi + 1) = Inr (keypoint kp person bodyPart 1)"
      using Array_at_keypoint [of kp person bodyPart 1] 1 True by simp
    have s: "Array_at kp (?bi + 2) = Inr (keypoint kp person bodyPart 2)"
      using Array_at_keypoint [of kp person bodyPart 2] 1 True by simp
    from "1.prems"(8) True
    obtain pt where pt: "compute3DPoint reader cam (keypoint kp person bodyPart 0)
        (keypoint kp person bodyPart 1) = Inr pt"
      by (metis order_refl sum.collapse(2))
    let ?ps1 = "update_bodyPart person bodyPart (set_bodyPart (keypoint kp person bodyPart 0)
        (keypoint kp person bodyPart 1) (keypoint kp person bodyPart 2) pt) ps"
    have len1: "nat person < length ?ps1" "length (bodyParts (?ps1 ! nat person)) = nat B"
      using "1.prems" by (simp_all add: update_bodyPart_def)
    have "\<exists>ps'. bodyPartLoop reader cam kp B person (bodyPart + 1) ?ps1 = (None, ps') \<and>
       length ps' = length ?ps1 \<and> (\<forall>i. i \<noteq> nat person \<longrightarrow> ps' ! i = ?ps1 ! i) \<and>
       length (bodyParts (ps' ! nat person)) = nat B \<and>
       (\<forall>j < nat B. bodyParts (ps' ! nat person) ! j =
          (if nat (bodyPart + 1) \<le> j then keypoint_bodyPart reader cam kp person (int j)
           else bodyParts (?ps1 ! nat person) ! j))"
      using "1.prems" len1 by (intro "1.IH" [OF True x y s pt]) auto
    then obtain ps' where
      ps': "bodyPartLoop reader cam kp B person (bodyPart + 1) ?ps1 = (None, ps')"
        "length ps' = length ?ps1" "\<forall>i. i \<noteq> nat person \<longrightarrow> ps' ! i = ?ps1 ! i"
        "length (bodyParts (ps' ! nat person)) = nat B"
        "\<forall>j < nat B. bodyParts (ps' ! nat person) ! j =
          (if nat (bodyPart + 1) \<le> j then keypoint_bodyPart reader cam kp person (int j)
           else bodyParts (?ps1 ! nat person) ! j)"
      by blast
    have run: "bodyPartLoop reader cam kp B person bodyPart ps = (None, ps')"
      by (subst bodyPartLoop.simps) (simp add: True x y s pt ps')
    have other: "\<forall>i. i \<noteq> nat person \<longrightarrow> ps' ! i = ps ! i"
      using ps'(3) by (simp add: update_bodyPart_def)
    have parts: "bodyParts (ps' ! nat person) ! j =
        (if nat bodyPart \<le> j then keypoint_bodyPart reader cam kp person (int j)
         else bodyParts (ps ! nat person) ! j)" if "j < nat B" for j
    proof -
      have old: "bodyParts (?ps1 ! nat person) ! j =
         (if j = nat bodyPart then keypoint_bodyPart reader cam kp person bodyPart
          else bodyParts (ps ! nat person) ! j)"
        using "1.prems" that
        by (auto simp add: update_bodyPart_def set_bodyPart_keypoint [OF pt] nth_list_update)
      show ?thesis
        using ps'(5) that "1.prems"(5) True by (auto simp: old)
    qed
    show ?thesis
      using run ps'(2,4) other parts by (simp add: update_bodyPart_def)
  qed
qed

lemma getSize_nonneg: "poseKeypoints_shape kp \<Longrightarrow> 0 \<le> getSize kp 0 \<and> 0 \<le> getSize kp 1"
  by (auto simp: poseKeypoints_shape_def getSize_def)

lemma personLoop_fills:
  assumes "PC = getSize kp 0" "B = getSize kp 1" "poseKeypoints_shape kp" "0 \<le> person"
    "length ps = nat PC"
    "\<forall>p b. person \<le> p \<and> p < PC \<and> 0 \<le> b \<and> b < B \<longrightarrow>
       \<not> isl (compute3DPoint reader cam (keypoint kp p b 0) (keypoint kp p b 1))"
  shows "\<exists>ps'. personLoop reader cam kp PC B person ps = (None, ps') \<and>
     length ps' = nat PC \<and>
     (\<forall>i < nat PC. if nat person \<le> i
        then length (bodyParts (ps' ! i)) = nat B \<and>
             (\<forall>j < nat B. bodyParts (ps' ! i) ! j = keypoint_bodyPart reader cam kp (int i) (int j))
        else ps' ! i = ps ! i)"
  using assms
proof (induction reader cam kp PC B person ps rule: personLoop.induct)
  case (1 reader cam kp PC B person ps)
  show ?case
  proof (cases "person < PC")
    case False
    then show ?thesis
      using "1.prems" by (subst personLoop.simps) auto
  next
    case True
    have B0: "0 \<le> B"
      using "1.prems" getSize_nonneg by blast
    define bps where "bps = take (nat B) (bodyParts (ps ! nat person)) @
        replicate (nat B - length (bodyParts (ps ! nat person))) default_BodyPart"
    have rs: "resize B default_BodyPart (bodyParts (ps ! nat person)) = Inr bps"
      using B0 by (simp add: resize_def bps_def)
    have lbps: "length bps = nat B"
      by (auto simp: bps_def)
    let ?ps0 = "ps[nat person := (ps ! nat person)\<lparr>bodyParts := bps\<rparr>]"
    have inr: "nat person < length ps"
      using True "1.prems" by simp
    have "\<exists>ps1. bodyPartLoop reader cam kp B person 0 ?ps0 = (None, ps1) \<and>
       length ps1 = length ?ps0 \<and> (\<forall>i. i \<noteq> nat person \<longrightarrow> ps1 ! i = ?ps0 ! i) \<and>
       length (bodyParts (ps1 ! nat person)) = nat B \<and>
       (\<forall>j < nat B. bodyParts (ps1 ! nat person) ! j =
          (if nat 0 \<le> j then keypoint_bodyPart reader cam kp person (int j)
           else bodyParts (?ps0 ! nat person) ! j))"
      using "1.prems" True inr lbps by (intro bodyPartLoop_fills) auto
    then obtain ps1 where
      ps1: "bodyPartLoop reader cam kp B person 0 ?ps0 = (None, ps1)"
        "length ps1 = length ps" "\<forall>i. i \<noteq> nat person \<longrightarrow> ps1 ! i = ps ! i"
        "length (bodyParts (ps1 ! nat person)) = nat B"
        "\<forall>j < nat B. bodyParts (ps1 ! nat person) ! j =
           keypoint_bodyPart reader cam kp person (int j)"
      by auto
    have "\<exists>ps'. personLoop reader cam kp PC B (person + 1) ps1 = (None, ps') \<and>
       length ps' = nat PC \<and>
       (\<forall>i < nat PC. if nat (person + 1) \<le> i
          then length (bodyParts (ps' ! i)) = nat B \<and>
               (\<forall>j < nat B. bodyParts (ps' ! i) ! j =
                  keypoint_bodyPart reader cam kp (int i) (int j))
          else ps' ! i = ps1 ! i)"
      using "1.prems" ps1(2)
      by (intro "1.IH" [OF True rs ps1(1) [symmetric] refl]) auto
    then obtain ps' where
      ps': "personLoop reader cam kp PC B (person + 1) ps1 = (None, ps')"
        "length ps' = nat PC"
        "\<forall>i < nat PC. if nat (person + 1) \<le> i
          then length (bodyParts (ps' ! i)) = nat B \<and>
               (\<forall>j < nat B. bodyParts (ps' ! i) ! j =
                  keypoint_bodyPart reader cam kp (int i) (int j))
          else ps' ! i = ps1 ! i"
      by blast
    have run: "personLoop reader cam kp PC B person ps = (None, ps')"
      by (subst personLoop.simps) (simp add: True rs ps1(1) ps'(1))
    have each: "if nat person \<le> i
        then length (bodyParts (ps' ! i)) = nat B \<and>
             (\<forall>j < nat B. bodyParts (ps' ! i) ! j =
                keypoint_bodyPart reader cam kp (int i) (int j))
        else ps' ! i = ps ! i" if "i < nat PC" for i
    proof (cases "i = nat person")
      case True
      then have "ps' ! i = ps1 ! nat person"
        using ps'(3) that "1.prems"(4) by (auto split: if_splits)
      then show ?thesis
        using True ps1(4,5) "1.prems"(4) by simp
    next
      case False
      then show ?thesis
        using ps'(3) that "1.prems"(4) ps1(3) by (auto split: if_splits)
    qed
    show ?thesis
      using run ps'(2) each by blast
  qed
qed

lemma keypoint_persons_bodyPart:
  assumes "0 \<le> p" "p < getSize kp 0" "0 \<le> b" "b < getSize kp 1"
  shows "length (bodyParts (keypoint_persons reader cam kp ! nat p)) = nat (getSize kp 1)"
    and "bodyParts (keypoint_persons reader cam kp ! nat p) ! nat b =
         keypoint_bodyPart reader cam kp p b"
  using assms by (simp_all add: keypoint_persons_def)

lemma keypoint_persons_length:
  "length (keypoint_persons reader cam kp) = nat (getSize kp 0)"
  by (simp add: keypoint_persons_def)

lemma fill_persons_keypoints:
  assumes "poseKeypoints_shape kp" "compute3DPoint_returns reader cam kp"
  shows "fill_persons reader cam kp = (None, keypoint_persons reader cam kp)"
proof -
  let ?PC = "getSize kp 0" and ?B = "getSize kp 1"
  have PC0: "0 \<le> ?PC" and B0: "0 \<le> ?B"
    using assms(1) getSize_nonneg by blast+
  let ?ps = "replicate (nat ?PC) (default_Person :: 'a Person)"
  have rs: "resize ?PC default_Person [] = Inr ?ps"
    using PC0 by (simp add: resize_def)
  have "\<exists>ps'. personLoop reader cam kp ?PC ?B 0 ?ps = (None, ps') \<and>
     length ps' = nat ?PC \<and>
     (\<forall>i < nat ?PC. if nat 0 \<le> i
        then length (bodyParts (ps' ! i)) = nat ?B \<and>
             (\<forall>j < nat ?B. bodyParts (ps' ! i) ! j =
                keypoint_bodyPart reader cam kp (int i) (int j))
        else ps' ! i = ?ps ! i)"
    using assms by (intro personLoop_fills) (auto simp: compute3DPoint_returns_def)
  then obtain ps' where
    ps': "personLoop reader cam kp ?PC ?B 0 ?ps = (None, ps')" "length ps' = nat ?PC"
      "\<forall>i < nat ?PC. length (bodyParts (ps' ! i)) = nat ?B \<and>
         (\<forall>j < nat ?B. bodyParts (ps' ! i) ! j =
            keypoint_bodyPart reader cam kp (int i) (int j))"
    by auto
  have "ps' = keypoint_persons reader cam kp"
  proof (rule nth_equalityI)
    show "length ps' = length (keypoint_persons reader cam kp)"
      using ps'(2) by (simp add: keypoint_persons_def)
  next
    fix i assume "i < length ps'"
    then have i: "i < nat ?PC" using ps'(2) by simp
    have "bodyParts (ps' ! i) = map (keypoint_bodyPart reader cam kp (int i)) [0 .. ?B - 1]"
      using ps'(3) i by (intro nth_equalityI) auto
    then show "ps' ! i = keypoint_persons reader cam kp ! i"
      using i by (simp add: keypoint_persons_def)
  qed
  then show ?thesis
    by (simp add: fill_persons_def rs ps'(1))
qed

subsection \<open>The loops of a call that raised nothing\<close>

text \<open>
  Whatever the array, when the loops end without an exception every body part they
  reached holds what the reads and the reader returned.
\<close>

lemma set_bodyPart_matches:
  assumes "Array_at kp (baseIndex kp B p b) = Inr x"
    "Array_at kp (baseIndex kp B p b + 1) = Inr y"
    "Array_at kp (baseIndex kp B p b + 2) = Inr sc"
    "compute3DPoint reader cam x y = Inr point3D"
  shows "bodyPart_matches reader cam kp B p b (set_bodyPart x y sc point3D bp)"
  using assms by (simp add: bodyPart_matches_def set_bodyPart_def)

lemma bodyPartLoop_matches:
  assumes "bodyPartLoop reader cam kp B person bodyPart ps = (None, ps')"
    "0 \<le> person" "0 \<le> bodyPart" "nat person < length ps"
    "length (bodyParts (ps ! nat person)) = nat B"
  shows "length ps' = length ps \<and> (\<forall>i. i \<noteq> nat person \<longrightarrow> ps' ! i = ps ! i) \<and>
     length (bodyParts (ps' ! nat person)) = nat B \<and>
     (\<forall>j < nat B.
        if nat bodyPart \<le> j
        then bodyPart_matches reader cam kp B person (int j) (bodyParts (ps' ! nat person) ! j)
        else bodyParts (ps' ! nat person) ! j = bodyParts (ps ! nat person) ! j)"
  using assms
proof (induction reader cam kp B person bodyPart ps rule: bodyPartLoop.induct)
  case (1 reader cam kp B person bodyPart ps)
  show ?case
  proof (cases "bodyPart < B")
    case False
    then have "ps' = ps"
      using "1.prems"(1) by (subst (asm) bodyPartLoop.simps) simp
    then show ?thesis
      using "1.prems" False by auto
  next
    case True
    let ?bi = "baseIndex kp B person bodyPart"
    from "1.prems"(1) True obtain x y sc pt where
      x: "Array_at kp ?bi = Inr x" and y: "Array_at kp (?bi + 1) = Inr y"
      and s: "Array_at kp (?bi + 2) = Inr sc"
      and pt: "compute3DPoint reader cam x y = Inr pt"
      and rest: "bodyPartLoop reader cam kp B person (bodyPart + 1)
          (update_bodyPart person bodyPart (set_bodyPart x y sc pt) ps) = (None, ps')"
      by (subst (asm) bodyPartLoop.simps) (auto split: sum.splits)
    let ?ps1 = "update_bodyPart person bodyPart (set_bodyPart x y sc pt) ps"
    have len1: "nat person < length ?ps1" "length (bodyParts (?ps1 ! nat person)) = nat B"
      using "1.prems" by (simp_all add: update_bodyPart_def)
    have ih: "length ps' = length ?ps1 \<and> (\<forall>i. i \<noteq> nat person \<longrightarrow> ps' ! i = ?ps1 ! i) \<and>
       length (bodyParts (ps' ! nat person)) = nat B \<and>
       (\<forall>j < nat B.
          if nat (bodyPart + 1) \<le> j
          then bodyPart_matches reader cam kp B person (int j) (bodyParts (ps' ! nat person) ! j)
          else bodyParts (ps' ! nat person) ! j = bodyParts (?ps1 ! nat person) ! j)"
      using "1.prems" len1 by (intro "1.IH" [OF True x y s pt rest]) auto
    have other: "\<forall>i. i \<noteq> nat person \<longrightarrow> ps' ! i = ps ! i"
      using ih by (simp add: update_bodyPart_def)
    have parts: "if nat bodyPart \<le> j
        then bodyPart_matches reader cam kp B person (int j) (bodyParts (ps' ! nat person) ! j)
        else bodyParts (ps' ! nat person) ! j = bodyParts (ps ! nat person) ! j"
      if "j < nat B" for j
    proof -
      have old: "bodyParts (?ps1 ! nat person) ! j =
         (if j = nat bodyPart
          then set_bodyPart x y sc pt (bodyParts (ps ! nat person) ! j)
          else bodyParts (ps ! nat person) ! j)"
        using "1.prems" that by (auto simp add: update_bodyPart_def nth_list_update)
      have this_one: "bodyPart_matches reader cam kp B person bodyPart
          (set_bodyPart x y sc pt bp)" for bp
        using x y s pt by (rule set_bodyPart_matches)
      from ih that have later: "if nat (bodyPart + 1) \<le> j
          then bodyPart_matches reader cam kp B person (int j) (bodyParts (ps' ! nat person) ! j)
          else bodyParts (ps' ! nat person) ! j = bodyParts (?ps1 ! nat person) ! j"
        by blast
      show ?thesis
      proof (cases "j = nat bodyPart")
        case True
        moreover have "\<not> nat (bodyPart + 1) \<le> nat bodyPart"
          using "1.prems"(3) by linarith
        ultimately have "bodyParts (ps' ! nat person) ! j =
            set_bodyPart x y sc pt (bodyParts (ps ! nat person) ! j)"
          using later old by simp
        then show ?thesis
          using True "1.prems"(3) this_one [of "bodyParts (ps ! nat person) ! j"] by simp
      next
        case False
        then show ?thesis
          using later old "1.prems"(3) by (auto split: if_splits)
      qed
    qed
    have len: "length ps' = length ps"
      using ih by (simp add: update_bodyPart_def)
    have lenb: "length (bodyParts (ps' ! nat person)) = nat B"
      using ih by blast
    show ?thesis
      using len lenb other parts by blast
  qed
qed

lemma personLoop_matches:
  assumes "personLoop reader cam kp PC B person ps = (None, ps')"
    "0 \<le> person" "length ps = nat PC"
  shows "length ps' = nat PC \<and>
     (\<forall>i < nat PC.
        if nat person \<le> i
        then length (bodyParts (ps' ! i)) = nat B \<and>
             (\<forall>j < nat B. bodyPart_matches reader cam kp B (int i) (int j)
                (bodyParts (ps' ! i) ! j))
        else ps' ! i = ps ! i)"
  using assms
proof (induction reader cam kp PC B person ps rule: personLoop.induct)
  case (1 reader cam kp PC B person ps)
  show ?case
  proof (cases "person < PC")
    case False
    then have "ps' = ps"
      using "1.prems"(1) by (subst (asm) personLoop.simps) simp
    then show ?thesis
      using "1.prems" False by auto
  next
    case True
    from "1.prems"(1) True obtain bps ps1 where
      rs: "resize B default_BodyPart (bodyParts (ps ! nat person)) = Inr bps"
      and inner: "bodyPartLoop reader cam kp B person 0
          (ps[nat person := (ps ! nat person)\<lparr>bodyParts := bps\<rparr>]) = (None, ps1)"
      and rest: "personLoop reader cam kp PC B (person + 1) ps1 = (None, ps')"
      by (subst (asm) personLoop.simps) (auto split: sum.splits prod.splits option.splits)
    have lbps: "length bps = nat B"
      using rs by (auto simp: resize_def split: if_splits)
    let ?ps0 = "ps[nat person := (ps ! nat person)\<lparr>bodyParts := bps\<rparr>]"
    have inr: "nat person < length ps"
      using True "1.prems" by simp
    have filled: "length ps1 = length ?ps0 \<and> (\<forall>i. i \<noteq> nat person \<longrightarrow> ps1 ! i = ?ps0 ! i) \<and>
       length (bodyParts (ps1 ! nat person)) = nat B \<and>
       (\<forall>j < nat B.
          if nat 0 \<le> j
          then bodyPart_matches reader cam kp B person (int j) (bodyParts (ps1 ! nat person) ! j)
          else bodyParts (ps1 ! nat person) ! j = bodyParts (?ps0 ! nat person) ! j)"
      using "1.prems"(2) inr lbps by (intro bodyPartLoop_matches [OF inner]) auto
    then have ps1: "length ps1 = length ps" "\<forall>i. i \<noteq> nat person \<longrightarrow> ps1 ! i = ps ! i"
      "length (bodyParts (ps1 ! nat person)) = nat B"
      "\<forall>j < nat B. bodyPart_matches reader cam kp B person (int j)
         (bodyParts (ps1 ! nat person) ! j)"
      by auto
    have ih: "length ps' = nat PC \<and>
       (\<forall>i < nat PC.
          if nat (person + 1) \<le> i
          then length (bodyParts (ps' ! i)) = nat B \<and>
               (\<forall>j < nat B. bodyPart_matches reader cam kp B (int i) (int j)
                  (bodyParts (ps' ! i) ! j))
          else ps' ! i = ps1 ! i)"
      using "1.prems" ps1(1)
      by (intro "1.IH" [OF True rs inner [symmetric] refl rest]) auto
    have each: "if nat person \<le> i
        then length (bodyParts (ps' ! i)) = nat B \<and>
             (\<forall>j < nat B. bodyPart_matches reader cam kp B (int i) (int j)
                (bodyParts (ps' ! i) ! j))
        else ps' ! i = ps ! i" if "i < nat PC" for i
    proof (cases "i = nat person")
      case True
      then have "ps' ! i = ps1 ! nat person"
        using ih that "1.prems"(2) by (auto split: if_splits)
      then show ?thesis
        using True ps1(3,4) "1.prems"(2) by simp
    next
      case False
      then show ?thesis
        using ih that "1.prems"(2) ps1(2) by (auto split: if_splits)
    qed
    show ?thesis
      using ih each by blast
  qed
qed

lemma fill_persons_matches:
  assumes "fill_persons reader cam kp = (None, ps)"
  shows "frame_matches reader cam kp (fr\<lparr>persons := ps\<rparr>)"
proof -
  let ?PC = "getSize kp 0" and ?B = "getSize kp 1"
  from assms obtain ps0 where
    rs: "resize ?PC default_Person [] = Inr ps0"
    and loop: "personLoop reader cam kp ?PC ?B 0 ps0 = (None, ps)"
    by (auto simp: fill_persons_def split: sum.splits)
  have l0: "length ps0 = nat ?PC"
    using rs by (auto simp: resize_def split: if_splits)
  from personLoop_matches [OF loop _ l0]
  have len: "length ps = nat ?PC"
    and all: "\<forall>i < nat ?PC. length (bodyParts (ps ! i)) = nat ?B \<and>
       (\<forall>j < nat ?B. bodyPart_matches reader cam kp ?B (int i) (int j)
          (bodyParts (ps ! i) ! j))"
    by auto
  have person: "length (bodyParts (ps ! nat p)) = nat ?B"
    if "p \<in> {0 ..< ?PC}" for p
    using all that by simp
  have part: "bodyPart_matches reader cam kp ?B p b (bodyParts (ps ! nat p) ! nat b)"
    if "p \<in> {0 ..< ?PC}" "b \<in> {0 ..< ?B}" for p b
  proof -
    from that have "nat p < nat ?PC" "nat b < nat ?B" "int (nat p) = p" "int (nat b) = b"
      by auto
    with all show ?thesis by metis
  qed
  show ?thesis
    using len person part by (simp add: frame_matches_def bodyPart_at_def)
qed

subsection \<open>The loops and the state of the reader\<close>

text \<open>
  The loops ask the reader for nothing but \<open>compute3DPoint\<close>.
\<close>

lemma bodyPartLoop_same_lookup:
  assumes "compute3DPoint reader c1 = compute3DPoint reader c2"
  shows "bodyPartLoop reader c1 kp B p b ps = bodyPartLoop reader c2 kp B p b ps"
  using assms
proof (induction reader c1 kp B p b ps rule: bodyPartLoop.induct)
  case (1 reader c1 kp B p b ps)
  show ?case
    using "1.prems" "1.IH"
    by (subst bodyPartLoop.simps, subst (2) bodyPartLoop.simps)
      (auto split: sum.splits)
qed

lemma personLoop_same_lookup:
  assumes "compute3DPoint reader c1 = compute3DPoint reader c2"
  shows "personLoop reader c1 kp PC B p ps = personLoop reader c2 kp PC B p ps"
  using assms
proof (induction reader c1 kp PC B p ps rule: personLoop.induct)
  case (1 reader c1 kp PC B p ps)
  have inner: "bodyPartLoop reader c1 kp B p 0 qs = bodyPartLoop reader c2 kp B p 0 qs" for qs
    using "1.prems" by (rule bodyPartLoop_same_lookup)
  show ?case
    using "1.prems" "1.IH"
    by (subst personLoop.simps, subst (2) personLoop.simps)
      (auto simp: inner split: sum.splits prod.splits option.splits)
qed

lemma fill_persons_same_lookup:
  assumes "compute3DPoint reader c1 = compute3DPoint reader c2"
  shows "fill_persons reader c1 kp = fill_persons reader c2 kp"
  by (simp add: fill_persons_def personLoop_same_lookup [OF assms] split: sum.splits)

subsection \<open>One call of the consumer\<close>

lemma workConsumer_try_fill:
  "workConsumer_try reader now (Some (d # ds)) w =
     (case copyLatestDepthImage reader (consumer_CameraReader w) of
        Inl e \<Rightarrow>
          (Some e,
           w\<lparr>mFrame := (mFrame w)\<lparr>header := (header (mFrame w))\<lparr>stamp := now\<rparr>, persons := []\<rparr>\<rparr>)
      | Inr cam \<Rightarrow>
          (case fill_persons reader cam (poseKeypoints d) of
             (err, ps) \<Rightarrow>
               (err,
                w\<lparr>mFrame := (mFrame w)\<lparr>header := (header (mFrame w))\<lparr>stamp := now\<rparr>,
                                      persons := ps\<rparr>,
                  consumer_CameraReader := cam,
                  published := published w @
                    (if err = None
                     then [(mFrame w)\<lparr>header := (header (mFrame w))\<lparr>stamp := now\<rparr>,
                                      persons := ps\<rparr>]
                     else [])\<rparr>)))"
  by (auto simp: workConsumer_try_def fill_persons_def Let_def
      split: sum.splits prod.splits option.splits)

lemma workConsumer_try_idle:
  "datumsPtr = None \<or> datumsPtr = Some [] \<Longrightarrow> workConsumer_try reader now datumsPtr w = (None, w)"
  by (auto simp: workConsumer_try_def)

lemma workConsumer_try_publishes:
  assumes "poseKeypoints_shape (poseKeypoints d)"
    and "copyLatestDepthImage reader (consumer_CameraReader w) = Inr cam"
    and "compute3DPoint_returns reader cam (poseKeypoints d)"
  shows "workConsumer_try reader now (Some (d # ds)) w =
     (None,
      w\<lparr>mFrame := (mFrame w)\<lparr>header := (header (mFrame w))\<lparr>stamp := now\<rparr>,
                            persons := keypoint_persons reader cam (poseKeypoints d)\<rparr>,
        consumer_CameraReader := cam,
        published := published w @
          [(mFrame w)\<lparr>header := (header (mFrame w))\<lparr>stamp := now\<rparr>,
                      persons := keypoint_persons reader cam (poseKeypoints d)\<rparr>]\<rparr>)"
  using assms by (simp add: workConsumer_try_fill fill_persons_keypoints)

lemma workConsumer_try_raises:
  assumes "workConsumer_try reader now datumsPtr v = (Some e, v')"
  shows "published v' = published v \<and> consumer_isRunning v' = consumer_isRunning v \<and>
         consumer_rosout v' = consumer_rosout v"
proof (cases datumsPtr)
  case None
  with assms show ?thesis by (simp add: workConsumer_try_def)
next
  case (Some datums)
  show ?thesis
  proof (cases datums)
    case Nil
    with assms Some show ?thesis by (simp add: workConsumer_try_def)
  next
    case (Cons d ds)
    with assms Some show ?thesis
      by (auto simp: workConsumer_try_fill split: sum.splits prod.splits)
  qed
qed

lemma published_by_call:
  "published_by w (workConsumer reader now (Some (d # ds)) w) =
     (case copyLatestDepthImage reader (consumer_CameraReader w) of
        Inl e \<Rightarrow> []
      | Inr cam \<Rightarrow>
          (case fill_persons reader cam (poseKeypoints d) of
             (None, ps) \<Rightarrow>
               [(mFrame w)\<lparr>header := (header (mFrame w))\<lparr>stamp := now\<rparr>, persons := ps\<rparr>]
           | (Some e, ps) \<Rightarrow> []))"
  by (simp add: published_by_def workConsumer_def workConsumer_try_fill
      split: sum.splits prod.splits option.splits)

lemma published_by_idle:
  "datumsPtr = None \<or> datumsPtr = Some [] \<Longrightarrow>
   published_by w (workConsumer reader now datumsPtr w) = []"
  by (auto simp: published_by_def workConsumer_def workConsumer_try_idle)

lemma published_by_returns:
  assumes "poseKeypoints_shape (poseKeypoints d)"
    and "copyLatestDepthImage reader (consumer_CameraReader w) = Inr cam"
    and "compute3DPoint_returns reader cam (poseKeypoints d)"
  shows "published_by w (workConsumer reader now (Some (d # ds)) w) =
     [mFrame (workConsumer reader now (Some (d # ds)) w)] \<and>
     persons (mFrame (workConsumer reader now (Some (d # ds)) w)) =
       keypoint_persons reader cam (poseKeypoints d)"
  using assms
  by (simp add: published_by_def workConsumer_def workConsumer_try_publishes)

lemma published_by_matches:
  assumes fr: "fr \<in> set (published_by w (workConsumer reader now (Some (d # ds)) w))"
  shows "\<exists>cam. copyLatestDepthImage reader (consumer_CameraReader w) = Inr cam \<and>
            frame_matches reader cam (poseKeypoints d) fr"
proof (cases "copyLatestDepthImage reader (consumer_CameraReader w)")
  case (Inl e)
  with fr show ?thesis by (simp add: published_by_call)
next
  case (Inr cam)
  obtain err ps where fill: "fill_persons reader cam (poseKeypoints d) = (err, ps)"
    by (cases "fill_persons reader cam (poseKeypoints d)")
  show ?thesis
  proof (cases err)
    case None
    with fr Inr fill
    have "fr = (mFrame w)\<lparr>header := (header (mFrame w))\<lparr>stamp := now\<rparr>, persons := ps\<rparr>"
      by (simp add: published_by_call)
    moreover have "frame_matches reader cam (poseKeypoints d)
        (((mFrame w)\<lparr>header := (header (mFrame w))\<lparr>stamp := now\<rparr>\<rparr>)\<lparr>persons := ps\<rparr>)"
      using fill None by (intro fill_persons_matches) simp
    ultimately show ?thesis using Inr by simp
  next
    case (Some e)
    with fr Inr fill show ?thesis by (simp add: published_by_call)
  qed
qed

lemma published_grows:
  "published (workConsumer reader now datumsPtr w) =
   published w @ published_by w (workConsumer reader now datumsPtr w) \<and>
   length (published_by w (workConsumer reader now datumsPtr w)) \<le> 1"
proof (cases datumsPtr)
  case None
  then show ?thesis
    by (simp add: published_by_def workConsumer_def workConsumer_try_idle)
next
  case (Some datums)
  show ?thesis
  proof (cases datums)
    case Nil
    with Some show ?thesis
      by (simp add: published_by_def workConsumer_def workConsumer_try_idle)
  next
    case (Cons d ds)
    with Some show ?thesis
      by (auto simp: published_by_def workConsumer_def workConsumer_try_fill
          split: sum.splits prod.splits option.splits)
  qed
qed

lemma published_by_completes:
  assumes "workConsumer_try reader now (Some (d # ds)) w = (None, w')"
  shows "published_by w (workConsumer reader now (Some (d # ds)) w) =
         [mFrame (workConsumer reader now (Some (d # ds)) w)]"
  using assms
  by (auto simp: published_by_def workConsumer_def workConsumer_try_fill
      split: sum.splits prod.splits option.splits if_splits)

lemma published_by_raises:
  assumes "workConsumer_try reader now datumsPtr w = (Some e, w')"
  shows "published_by w (workConsumer reader now datumsPtr w) = []"
  using workConsumer_try_raises [OF assms] assms
  by (simp add: published_by_def workConsumer_def)

lemma workConsumer_mFrame_published:
  "frame_id (header (mFrame (workConsumer reader now datumsPtr w))) =
     frame_id (header (mFrame w)) \<and>
   set (published (workConsumer reader now datumsPtr w)) \<subseteq>
     set (published w) \<union> {mFrame (workConsumer reader now datumsPtr w)}"
proof (cases datumsPtr)
  case None
  then show ?thesis
    by (auto simp: workConsumer_def workConsumer_try_idle)
next
  case (Some datums)
  show ?thesis
  proof (cases datums)
    case Nil
    with Some show ?thesis
      by (auto simp: workConsumer_def workConsumer_try_idle)
  next
    case (Cons d ds)
    with Some show ?thesis
      by (auto simp: workConsumer_def workConsumer_try_fill
          split: sum.splits prod.splits option.splits)
  qed
qed

subsection \<open>Runs of the consumer\<close>

lemma run_consumer_stopped:
  "\<not> consumer_isRunning w \<Longrightarrow> run_consumer reader calls w = w"
  by (cases calls) auto

lemma run_consumer_frame_id:
  assumes "frame_id (header (mFrame w)) = frameId"
    and "\<forall>f \<in> set (published w). frame_id (header f) = frameId"
  shows "frame_id (header (mFrame (run_consumer reader calls w))) = frameId \<and>
         (\<forall>f \<in> set (published (run_consumer reader calls w)). frame_id (header f) = frameId)"
  using assms
proof (induction calls arbitrary: w)
  case Nil
  then show ?case by simp
next
  case (Cons call calls)
  obtain now cam datumsPtr where call: "call = (now, cam, datumsPtr)"
    by (cases call)
  let ?w = "workConsumer reader now datumsPtr (w\<lparr>consumer_CameraReader := cam\<rparr>)"
  note step = workConsumer_mFrame_published
    [of reader now datumsPtr "w\<lparr>consumer_CameraReader := cam\<rparr>"]
  have id: "frame_id (header (mFrame ?w)) = frameId"
    using step Cons.prems(1) by simp
  have pub: "\<forall>f \<in> set (published ?w). frame_id (header f) = frameId"
    using step Cons.prems(2) id by auto
  show ?case
    using Cons.IH [OF id pub] Cons.prems by (simp add: call)
qed

subsection \<open>main and the projection\<close>

lemma main_try_last:
  "main_try frameId \<noteq> [] \<and> last (main_try frameId) = Return 0 \<and>
   Exit (- 1) \<notin> set (main_try frameId) \<and>
   (\<forall>s. Log (ROS_FATAL s) \<notin> set (main_try frameId))"
  by (simp add: main_try_def)

lemma pinhole_projection_inverse:
  assumes "fx cam \<noteq> 0" "fy cam \<noteq> 0" "z \<noteq> 0"
  shows "pinhole_projection cam (inverse_pinhole_projection cam u v z) = (u, v)"
  using assms by (simp add: pinhole_projection_def inverse_pinhole_projection_def)

lemma spec_CameraReader_copy:
  "copyLatestDepthImage spec_CameraReader cam = Inr (cam\<lparr>mDepthImageUsed := mDepthImage cam\<rparr>)"
  by (simp add: spec_CameraReader_def)

lemma spec_CameraReader_returns:
  "compute3DPoint_returns spec_CameraReader cam kp"
  by (simp add: compute3DPoint_returns_def spec_CameraReader_def)

subsection \<open>The example\<close>

lemma example_sizes:
  "getSize (poseKeypoints (example_datum example_keypoints)) 0 = 1"
  "getSize (poseKeypoints (example_datum example_keypoints)) 1 = 2"
  "getSize (poseKeypoints (example_datum example_keypoints)) 2 = 3"
  by (simp_all add: example_datum_def getSize_def example_keypoints_def)

lemma example_shape: "poseKeypoints_shape (poseKeypoints (example_datum example_keypoints))"
  by (simp add: example_datum_def poseKeypoints_shape_def example_keypoints_def)

lemma example_copy_any:
  "copyLatestDepthImage (example_reader color) cam = Inr (fst cam, fst cam)"
  by (simp add: example_reader_def)

lemma example_returns:
  "compute3DPoint_returns (example_reader color) cam
     (poseKeypoints (example_datum example_keypoints))"
proof -
  let ?kp = "poseKeypoints (example_datum example_keypoints)"
  have "\<not> keypoint ?kp p b 0 < 0" if "p \<in> {0 ..< 1}" "b \<in> {0 ..< 2}" for p b
  proof -
    from that have "p = 0" "b = 0 \<or> b = 1" by auto
    then show ?thesis
      by (auto simp: keypoint_def baseIndex_def example_sizes)
        (simp_all add: example_datum_def example_keypoints_def)
  qed
  then show ?thesis
    by (simp add: compute3DPoint_returns_def example_sizes example_reader_def)
qed

lemma example_raises:
  "workConsumer_try (example_reader color) 100
     (Some [example_datum example_keypoints_outside]) example_consumer =
   (Some (std_exception ''pixel outside the depth image''),
    example_consumer
      \<lparr>mFrame := \<lparr>header = \<lparr>stamp = 100, frame_id = ''camera_color_optical_frame''\<rparr>,
                  persons = [\<lparr>bodyParts = [default_BodyPart]\<rparr>]\<rparr>,
       consumer_CameraReader := (4, 4)\<rparr>)"
  by (simp add: workConsumer_try_def Let_def example_consumer_def WUserOutput_def
      example_reader_def example_datum_def example_keypoints_outside_def getSize_def
      resize_def default_Person_def personLoop.simps bodyPartLoop.simps
      baseIndex_def Array_at_def)

lemma example_call:
  "workConsumer (example_reader color) now (Some [example_datum example_keypoints]) w =
   w\<lparr>mFrame := (mFrame w)
        \<lparr>header := (header (mFrame w))\<lparr>stamp := now\<rparr>,
         persons := keypoint_persons (example_reader color)
           (fst (consumer_CameraReader w), fst (consumer_CameraReader w))
           (poseKeypoints (example_datum example_keypoints))\<rparr>,
      consumer_CameraReader := (fst (consumer_CameraReader w), fst (consumer_CameraReader w)),
      published := published w @
        [(mFrame w)
           \<lparr>header := (header (mFrame w))\<lparr>stamp := now\<rparr>,
            persons := keypoint_persons (example_reader color)
              (fst (consumer_CameraReader w), fst (consumer_CameraReader w))
              (poseKeypoints (example_datum example_keypoints))\<rparr>]\<rparr>"
  by (simp add: workConsumer_def
      workConsumer_try_publishes [OF example_shape example_copy_any example_returns])

subsection \<open>The claims\<close>

text \<open>
  C1. For every call of the consumer with a datum list that is neither null nor empty,
  a frame the call publishes matches the keypoint array of the first datum: it holds
  \<open>personCount = getSize(0)\<close> persons, each with \<open>bodyPartCount = getSize(1)\<close> body
  parts, in the order of the keypoints; the body part at (person, bodyPart) has as
  \<open>pixel.x\<close>, \<open>pixel.y\<close> and \<open>score\<close> the values the keypoint array returns at the flat
  indices \<open>getSize(2) * (person * bodyPartCount + bodyPart)\<close>, \<open>+ 1\<close> and \<open>+ 2\<close>, and as
  \<open>point\<close> the three numbers \<open>compute3DPoint\<close> returns for that pixel on the depth image
  just copied. And the call does publish a frame, exactly one, when the keypoint array has
  the documented shape and the camera reader raises nothing on it.
\<close>

theorem consumer_publishes_keypoints:
  "(\<forall>fr \<in> set (published_by w (workConsumer reader now (Some (d # ds)) w)).
      \<exists>cam. copyLatestDepthImage reader (consumer_CameraReader w) = Inr cam \<and>
            frame_matches reader cam (poseKeypoints d) fr) \<and>
   (poseKeypoints_shape (poseKeypoints d) \<and>
    copyLatestDepthImage reader (consumer_CameraReader w) = Inr cam \<and>
    compute3DPoint_returns reader cam (poseKeypoints d) \<longrightarrow>
      (\<exists>fr. published_by w (workConsumer reader now (Some (d # ds)) w) = [fr]))"
proof (intro conjI ballI impI)
  fix fr
  assume "fr \<in> set (published_by w (workConsumer reader now (Some (d # ds)) w))"
  then show "\<exists>cam. copyLatestDepthImage reader (consumer_CameraReader w) = Inr cam \<and>
            frame_matches reader cam (poseKeypoints d) fr"
    by (rule published_by_matches)
next
  assume "poseKeypoints_shape (poseKeypoints d) \<and>
    copyLatestDepthImage reader (consumer_CameraReader w) = Inr cam \<and>
    compute3DPoint_returns reader cam (poseKeypoints d)"
  then show "\<exists>fr. published_by w (workConsumer reader now (Some (d # ds)) w) = [fr]"
    using published_by_returns [of d reader w cam now ds] by blast
qed

theorem consumer_publishes_keypoints_witness:
  "poseKeypoints_shape (poseKeypoints (example_datum example_keypoints)) \<and>
   copyLatestDepthImage (example_reader (Inr example_image))
     (consumer_CameraReader example_consumer) = Inr (4, 4) \<and>
   compute3DPoint_returns (example_reader (Inr example_image)) (4, 4)
     (poseKeypoints (example_datum example_keypoints)) \<and>
   (\<exists>fr. published_by example_consumer
            (workConsumer (example_reader (Inr example_image)) 100
               (Some [example_datum example_keypoints]) example_consumer) = [fr] \<and>
         length (persons fr) = 1 \<and> length (bodyParts (persons fr ! 0)) = 2 \<and>
         pixel_x (pixel (bodyPart_at fr 0 1)) = 30 \<and>
         pixel_y (pixel (bodyPart_at fr 0 1)) = 40 \<and>
         score (bodyPart_at fr 0 1) = 8 \<and>
         point_x (point (bodyPart_at fr 0 1)) = 120 \<and>
         point_y (point (bodyPart_at fr 0 1)) = 160 \<and>
         point_z (point (bodyPart_at fr 0 1)) = 4)"
proof -
  let ?kp = "poseKeypoints (example_datum example_keypoints)"
  let ?reader = "example_reader (Inr example_image)"
  let ?w = "workConsumer ?reader 100 (Some [example_datum example_keypoints]) example_consumer"
  note sizes = example_sizes
  note shape = example_shape
  have copy: "copyLatestDepthImage (example_reader (Inr example_image))
      (consumer_CameraReader example_consumer) = Inr (4, 4)"
    by (simp add: example_copy_any example_consumer_def WUserOutput_def)
  note returns = example_returns [of "Inr example_image" "(4, 4)"]
  note claim = consumer_publishes_keypoints
    [of example_consumer ?reader 100 "example_datum example_keypoints" "[]" "(4, 4)"]
  from claim [THEN conjunct2] shape copy returns
  obtain fr where one: "published_by example_consumer ?w = [fr]"
    by blast
  with claim [THEN conjunct1] copy
  have matches: "frame_matches ?reader (4, 4) ?kp fr"
    by auto
  have p0: "(0::int) \<in> {0 ..< getSize ?kp 0}" and b1: "(1::int) \<in> {0 ..< getSize ?kp 1}"
    by (simp_all add: sizes)
  from matches have len: "length (persons fr) = 1"
    by (simp add: frame_matches_def sizes)
  from matches have person0: "length (bodyParts (persons fr ! nat 0)) = nat (getSize ?kp 1) \<and>
      (\<forall>b \<in> {0 ..< getSize ?kp 1}.
         bodyPart_matches ?reader (4, 4) ?kp (getSize ?kp 1) 0 b (bodyPart_at fr 0 b))"
    unfolding frame_matches_def using p0 by blast
  then have len0: "length (bodyParts (persons fr ! 0)) = 2"
    by (simp add: sizes)
  from person0 b1 have "bodyPart_matches ?reader (4, 4) ?kp (getSize ?kp 1) 0 1 (bodyPart_at fr 0 1)"
    by blast
  then have part01:
    "Array_at ?kp (baseIndex ?kp 2 0 1) = Inr (pixel_x (pixel (bodyPart_at fr 0 1)))"
    "Array_at ?kp (baseIndex ?kp 2 0 1 + 1) = Inr (pixel_y (pixel (bodyPart_at fr 0 1)))"
    "Array_at ?kp (baseIndex ?kp 2 0 1 + 2) = Inr (score (bodyPart_at fr 0 1))"
    "compute3DPoint ?reader (4, 4) (pixel_x (pixel (bodyPart_at fr 0 1)))
       (pixel_y (pixel (bodyPart_at fr 0 1))) =
     Inr (point_x (point (bodyPart_at fr 0 1)), point_y (point (bodyPart_at fr 0 1)),
          point_z (point (bodyPart_at fr 0 1)))"
    by (simp_all add: bodyPart_matches_def sizes)
  have reads: "Array_at ?kp (baseIndex ?kp 2 0 1) = Inr 30"
    "Array_at ?kp (baseIndex ?kp 2 0 1 + 1) = Inr 40"
    "Array_at ?kp (baseIndex ?kp 2 0 1 + 2) = Inr 8"
    by (simp_all add: Array_at_def baseIndex_def sizes)
      (simp_all add: example_datum_def example_keypoints_def)
  from part01(1-3) reads have px: "pixel_x (pixel (bodyPart_at fr 0 1)) = 30"
    "pixel_y (pixel (bodyPart_at fr 0 1)) = 40" "score (bodyPart_at fr 0 1) = 8"
    by simp_all
  from part01(4) have pt: "point_x (point (bodyPart_at fr 0 1)) = 120"
    "point_y (point (bodyPart_at fr 0 1)) = 160" "point_z (point (bodyPart_at fr 0 1)) = 4"
    by (simp_all add: px example_reader_def)
  from shape copy returns one len len0 px pt show ?thesis
    by (intro conjI exI [of _ fr]) simp_all
qed

text \<open>
  C2. An empty or missing frame is skipped. When the latest colour image is empty,
  \<open>workProducer\<close> returns the null pointer; it stays running, and the only thing it may
  write is the throttled warning. When the datum list is null or empty, the \<open>try\<close> block
  of \<open>workConsumer\<close> raises nothing and the consumer is left exactly as it was: nothing
  published, nothing logged, still running.
\<close>

theorem empty_frames_skipped:
  "(getColorFrame reader (producer_CameraReader w) = Inr colorImage \<and> Mat_empty colorImage \<longrightarrow>
      workProducer reader throttle w =
      (None,
       w\<lparr>producer_rosout := producer_rosout w @
          (if throttle then [ROS_WARN ''Empty color image frame detected. Ignoring...'']
           else [])\<rparr>)) \<and>
   (datumsPtr = None \<or> datumsPtr = Some [] \<longrightarrow>
      workConsumer_try reader now datumsPtr v = (None, v) \<and>
      workConsumer reader now datumsPtr v = v)"
  by (auto simp: workProducer_def workProducer_try_def workConsumer_def workConsumer_try_idle)

theorem empty_frames_skipped_witness:
  "getColorFrame (example_reader (Inr example_empty_image))
     (producer_CameraReader example_producer) = Inr example_empty_image \<and>
   Mat_empty example_empty_image \<and>
   workProducer (example_reader (Inr example_empty_image)) True example_producer =
     (None,
      example_producer
        \<lparr>producer_rosout := [ROS_WARN ''Empty color image frame detected. Ignoring...'']\<rparr>) \<and>
   workConsumer_try (example_reader (Inr example_empty_image)) 100 None example_consumer =
     (None, example_consumer) \<and>
   workConsumer (example_reader (Inr example_empty_image)) 100 (Some []) example_consumer =
     example_consumer"
proof -
  have img: "getColorFrame (example_reader (Inr example_empty_image))
      (producer_CameraReader example_producer) = Inr example_empty_image"
    by (simp add: example_reader_def)
  have empty: "Mat_empty example_empty_image"
    by (simp add: Mat_empty_def example_empty_image_def)
  from empty_frames_skipped [of "example_reader (Inr example_empty_image)" example_producer
      example_empty_image True None 100 example_consumer]
    empty_frames_skipped [of "example_reader (Inr example_empty_image)" example_producer
      example_empty_image True "Some []" 100 example_consumer]
    img empty
  show ?thesis by (simp add: example_producer_def)
qed

text \<open>
  C3. When \<open>openpose_model_dir\<close> is read as the empty string, \<open>main\<close> does three things
  and no more: \<open>ros::init\<close>, the \<open>ROS_FATAL\<close> line and \<open>exit(-1)\<close>; no camera reader,
  publisher or wrapper is made. When it is not empty, \<open>main\<close> goes on: it sets the model
  folder, parses the flags, makes the camera reader and the publisher, enters the \<open>try\<close>
  block and ends by returning 0 or -1, without the fatal line and without \<open>exit(-1)\<close>.
\<close>

theorem missing_model_dir_is_fatal:
  "(getParam nh ''openpose_model_dir'' = [] \<longrightarrow>
      main nh failure =
      [ros_init ''ros_openpose_node'',
       Log (ROS_FATAL ''Missing 'openpose_model_dir' info in launch file''),
       Exit (- 1)]) \<and>
   (getParam nh ''openpose_model_dir'' \<noteq> [] \<longrightarrow>
      (\<exists>rest. main nh failure =
         [ros_init ''ros_openpose_node'',
          set_FLAGS_model_folder (getParam nh ''openpose_model_dir''),
          ParseCommandLineFlags,
          new_CameraReader (getParam nh ''color_topic'') (getParam nh ''depth_topic'')
            (getParam nh ''cam_info_topic''),
          advertise (getParam nh ''pub_topic'')] @ rest \<and>
         (last rest = Return 0 \<or> last rest = Return (- 1)) \<and>
         Exit (- 1) \<notin> set rest \<and>
         Log (ROS_FATAL ''Missing 'openpose_model_dir' info in launch file'') \<notin> set rest))"
proof (intro conjI impI)
  assume "getParam nh ''openpose_model_dir'' = []"
  then show "main nh failure =
      [ros_init ''ros_openpose_node'',
       Log (ROS_FATAL ''Missing 'openpose_model_dir' info in launch file''),
       Exit (- 1)]"
    by (simp add: main_def)
next
  assume dir: "getParam nh ''openpose_model_dir'' \<noteq> []"
  let ?block = "main_try (getParam nh ''frame_id'')"
  define rest where "rest =
    (case failure of
       None \<Rightarrow> ?block
     | Some (k, e) \<Rightarrow>
         if k < length ?block
         then take k ?block @ [Log (ROS_ERROR (what e) 409 ''main'' FILE), Return (- 1)]
         else ?block)"
  have run: "main nh failure =
         [ros_init ''ros_openpose_node'',
          set_FLAGS_model_folder (getParam nh ''openpose_model_dir''),
          ParseCommandLineFlags,
          new_CameraReader (getParam nh ''color_topic'') (getParam nh ''depth_topic'')
            (getParam nh ''cam_info_topic''),
          advertise (getParam nh ''pub_topic'')] @ rest"
    using dir by (simp add: main_def rest_def Let_def)
  have sub: "set (take k ?block) \<subseteq> set ?block" for k
    by (rule set_take_subset)
  have ends: "last rest = Return 0 \<or> last rest = Return (- 1)"
    using main_try_last [of "getParam nh ''frame_id''"]
    by (auto simp: rest_def split: option.splits)
  have no_exit: "Exit (- 1) \<notin> set rest"
    using main_try_last [of "getParam nh ''frame_id''"] sub
    by (auto simp: rest_def split: option.splits)
  have no_fatal: "Log (ROS_FATAL ''Missing 'openpose_model_dir' info in launch file'') \<notin> set rest"
    using main_try_last [of "getParam nh ''frame_id''"] sub
    by (auto simp: rest_def split: option.splits)
  show "\<exists>rest. main nh failure =
         [ros_init ''ros_openpose_node'',
          set_FLAGS_model_folder (getParam nh ''openpose_model_dir''),
          ParseCommandLineFlags,
          new_CameraReader (getParam nh ''color_topic'') (getParam nh ''depth_topic'')
            (getParam nh ''cam_info_topic''),
          advertise (getParam nh ''pub_topic'')] @ rest \<and>
         (last rest = Return 0 \<or> last rest = Return (- 1)) \<and>
         Exit (- 1) \<notin> set rest \<and>
         Log (ROS_FATAL ''Missing 'openpose_model_dir' info in launch file'') \<notin> set rest"
    using run ends no_exit no_fatal by blast
qed


theorem missing_model_dir_is_fatal_witness:
  "getParam example_params ''openpose_model_dir'' = [] \<and>
   main example_params None =
     [ros_init ''ros_openpose_node'',
      Log (ROS_FATAL ''Missing 'openpose_model_dir' info in launch file''),
      Exit (- 1)] \<and>
   getParam example_params_dir ''openpose_model_dir'' = ''/home/ravi/tools/openpose/models/'' \<and>
   (\<exists>rest. main example_params_dir (Some (3, std_exception ''no GPU'')) =
      [ros_init ''ros_openpose_node'',
       set_FLAGS_model_folder ''/home/ravi/tools/openpose/models/'',
       ParseCommandLineFlags,
       new_CameraReader ''/camera/color/image_raw'' ''/camera/aligned_depth_to_color/image_raw''
         ''/camera/color/camera_info'',
       advertise ''/frame''] @ rest \<and>
      (last rest = Return 0 \<or> last rest = Return (- 1)) \<and>
      Exit (- 1) \<notin> set rest \<and>
      Log (ROS_FATAL ''Missing 'openpose_model_dir' info in launch file'') \<notin> set rest)"
proof -
  have none: "getParam example_params ''openpose_model_dir'' = []"
    by (simp add: getParam_def example_params_def)
  have params: "getParam example_params_dir ''openpose_model_dir'' =
      ''/home/ravi/tools/openpose/models/''"
    "getParam example_params_dir ''color_topic'' = ''/camera/color/image_raw''"
    "getParam example_params_dir ''depth_topic'' = ''/camera/aligned_depth_to_color/image_raw''"
    "getParam example_params_dir ''cam_info_topic'' = ''/camera/color/camera_info''"
    "getParam example_params_dir ''pub_topic'' = ''/frame''"
    by (simp_all add: getParam_def example_params_dir_def example_params_def)
  from missing_model_dir_is_fatal [of example_params None, THEN conjunct1] none
  have fatal: "main example_params None =
     [ros_init ''ros_openpose_node'',
      Log (ROS_FATAL ''Missing 'openpose_model_dir' info in launch file''),
      Exit (- 1)]"
    by simp
  from missing_model_dir_is_fatal
    [of example_params_dir "Some (3, std_exception ''no GPU'')", THEN conjunct2]
  have "\<exists>rest. main example_params_dir (Some (3, std_exception ''no GPU'')) =
      [ros_init ''ros_openpose_node'',
       set_FLAGS_model_folder ''/home/ravi/tools/openpose/models/'',
       ParseCommandLineFlags,
       new_CameraReader ''/camera/color/image_raw'' ''/camera/aligned_depth_to_color/image_raw''
         ''/camera/color/camera_info'',
       advertise ''/frame''] @ rest \<and>
      (last rest = Return 0 \<or> last rest = Return (- 1)) \<and>
      Exit (- 1) \<notin> set rest \<and>
      Log (ROS_FATAL ''Missing 'openpose_model_dir' info in launch file'') \<notin> set rest"
    by (simp add: params)
  with none fatal params(1) show ?thesis by simp
qed

text \<open>
  C4. An exception raised inside the \<open>try\<close> block of a worker does not leave the worker:
  the handler calls \<open>stop()\<close>, which clears the running flag, and writes one
  \<open>ROS_ERROR\<close> line with \<open>e.what()\<close>, the line, the function and the file.
  \<open>workProducer\<close> then returns the null pointer. The consumer has published nothing in
  that call, and the wrapper does not call it again.
\<close>

theorem worker_exceptions_caught:
  "(workProducer_try reader throttle w = (Inl e, w') \<longrightarrow>
      workProducer reader throttle w =
      (None,
       w'\<lparr>producer_isRunning := False,
          producer_rosout := producer_rosout w' @
            [ROS_ERROR (what e) 73 ''workProducer'' FILE]\<rparr>)) \<and>
   (workConsumer_try reader now datumsPtr v = (Some e, v') \<longrightarrow>
      workConsumer reader now datumsPtr v =
      v'\<lparr>consumer_isRunning := False,
         consumer_rosout := consumer_rosout v' @
           [ROS_ERROR (what e) 164 ''workConsumer'' FILE]\<rparr> \<and>
      published (workConsumer reader now datumsPtr v) = published v \<and>
      run_consumer reader calls (workConsumer reader now datumsPtr v) =
      workConsumer reader now datumsPtr v)"
proof (intro conjI impI)
  assume "workProducer_try reader throttle w = (Inl e, w')"
  then show "workProducer reader throttle w =
      (None,
       w'\<lparr>producer_isRunning := False,
          producer_rosout := producer_rosout w' @
            [ROS_ERROR (what e) 73 ''workProducer'' FILE]\<rparr>)"
    by (simp add: workProducer_def)
next
  assume raised: "workConsumer_try reader now datumsPtr v = (Some e, v')"
  then show caught: "workConsumer reader now datumsPtr v =
      v'\<lparr>consumer_isRunning := False,
         consumer_rosout := consumer_rosout v' @
           [ROS_ERROR (what e) 164 ''workConsumer'' FILE]\<rparr>"
    by (simp add: workConsumer_def)
  show "published (workConsumer reader now datumsPtr v) = published v"
    using workConsumer_try_raises [OF raised] by (simp add: caught)
  show "run_consumer reader calls (workConsumer reader now datumsPtr v) =
      workConsumer reader now datumsPtr v"
    by (rule run_consumer_stopped) (simp add: caught)
qed

theorem worker_exceptions_caught_witness:
  "workProducer_try (example_reader (Inl (std_exception ''no image''))) True example_producer =
     (Inl (std_exception ''no image''), example_producer) \<and>
   workProducer (example_reader (Inl (std_exception ''no image''))) True example_producer =
     (None,
      example_producer
        \<lparr>producer_isRunning := False,
         producer_rosout := [ROS_ERROR ''no image'' 73 ''workProducer'' FILE]\<rparr>) \<and>
   consumer_isRunning
     (workConsumer (example_reader (Inl (std_exception ''no image''))) 100
        (Some [example_datum example_keypoints_outside]) example_consumer) = False \<and>
   consumer_rosout
     (workConsumer (example_reader (Inl (std_exception ''no image''))) 100
        (Some [example_datum example_keypoints_outside]) example_consumer) =
     [ROS_ERROR ''pixel outside the depth image'' 164 ''workConsumer'' FILE] \<and>
   published
     (workConsumer (example_reader (Inl (std_exception ''no image''))) 100
        (Some [example_datum example_keypoints_outside]) example_consumer) = [] \<and>
   run_consumer (example_reader (Inl (std_exception ''no image'')))
     [(200, (4, 4), Some [example_datum example_keypoints])]
     (workConsumer (example_reader (Inl (std_exception ''no image''))) 100
        (Some [example_datum example_keypoints_outside]) example_consumer) =
     workConsumer (example_reader (Inl (std_exception ''no image''))) 100
        (Some [example_datum example_keypoints_outside]) example_consumer"
proof -
  let ?reader = "example_reader (Inl (std_exception ''no image''))"
  have producer: "workProducer_try ?reader True example_producer =
      (Inl (std_exception ''no image''), example_producer)"
    by (simp add: workProducer_try_def example_reader_def)
  note consumer = example_raises [of "Inl (std_exception ''no image'')"]
  note caught_producer = worker_exceptions_caught [THEN conjunct1, THEN mp, OF producer]
  note caught_consumer = worker_exceptions_caught [THEN conjunct2, THEN mp, OF consumer]
  have p: "workProducer ?reader True example_producer =
     (None,
      example_producer
        \<lparr>producer_isRunning := False,
         producer_rosout := [ROS_ERROR ''no image'' 73 ''workProducer'' FILE]\<rparr>)"
    using caught_producer by (simp add: example_producer_def)
  have c: "workConsumer ?reader 100 (Some [example_datum example_keypoints_outside])
        example_consumer =
      example_consumer
      \<lparr>mFrame := \<lparr>header = \<lparr>stamp = 100, frame_id = ''camera_color_optical_frame''\<rparr>,
                  persons = [\<lparr>bodyParts = [default_BodyPart]\<rparr>]\<rparr>,
       consumer_CameraReader := (4, 4),
       consumer_isRunning := False,
       consumer_rosout := consumer_rosout example_consumer @
         [ROS_ERROR ''pixel outside the depth image'' 164 ''workConsumer'' FILE]\<rparr>"
    "published (workConsumer ?reader 100 (Some [example_datum example_keypoints_outside])
        example_consumer) = published example_consumer"
    "run_consumer ?reader [(200, (4, 4), Some [example_datum example_keypoints])]
       (workConsumer ?reader 100 (Some [example_datum example_keypoints_outside])
          example_consumer) =
     workConsumer ?reader 100 (Some [example_datum example_keypoints_outside]) example_consumer"
    using caught_consumer [of "[(200, (4, 4), Some [example_datum example_keypoints])]"]
    by simp_all
  have start: "published example_consumer = []" "consumer_rosout example_consumer = []"
    by (simp_all add: example_consumer_def WUserOutput_def)
  show ?thesis
    using producer p c(2,3) start by (simp add: c(1))
qed

text \<open>
  C5. With the camera reader modelled from the spec, every body part of a frame the
  consumer publishes has as its 3D point the inverse pinhole projection, with the
  intrinsic matrix of the reader, of its own pixel and of the depth value that the latest
  depth image gives for that pixel; and where the focal lengths and the depth are not
  zero, the pinhole projection of the 3D point is the pixel again. On a keypoint array
  of the documented shape the consumer does publish the frame.
\<close>

theorem keypoints_projected_by_inverse_pinhole:
  "(\<forall>fr \<in> set (published_by w (workConsumer spec_CameraReader now (Some (d # ds)) w)).
      \<forall>p \<in> {0 ..< getSize (poseKeypoints d) 0}. \<forall>b \<in> {0 ..< getSize (poseKeypoints d) 1}.
        (point_x (point (bodyPart_at fr p b)), point_y (point (bodyPart_at fr p b)),
         point_z (point (bodyPart_at fr p b))) =
        inverse_pinhole_projection (consumer_CameraReader w)
          (pixel_x (pixel (bodyPart_at fr p b))) (pixel_y (pixel (bodyPart_at fr p b)))
          (mDepthImage (consumer_CameraReader w)
             (pixel_x (pixel (bodyPart_at fr p b))) (pixel_y (pixel (bodyPart_at fr p b)))) \<and>
        (fx (consumer_CameraReader w) \<noteq> 0 \<and> fy (consumer_CameraReader w) \<noteq> 0 \<and>
         mDepthImage (consumer_CameraReader w)
           (pixel_x (pixel (bodyPart_at fr p b))) (pixel_y (pixel (bodyPart_at fr p b))) \<noteq> 0 \<longrightarrow>
         pinhole_projection (consumer_CameraReader w)
           (point_x (point (bodyPart_at fr p b)), point_y (point (bodyPart_at fr p b)),
            point_z (point (bodyPart_at fr p b))) =
         (pixel_x (pixel (bodyPart_at fr p b)), pixel_y (pixel (bodyPart_at fr p b))))) \<and>
   (poseKeypoints_shape (poseKeypoints d) \<longrightarrow>
      (\<exists>fr. published_by w (workConsumer spec_CameraReader now (Some (d # ds)) w) = [fr]))"
proof (intro conjI ballI impI)
  fix fr p b
  let ?cam = "consumer_CameraReader w"
  assume fr: "fr \<in> set (published_by w (workConsumer spec_CameraReader now (Some (d # ds)) w))"
    and p: "p \<in> {0 ..< getSize (poseKeypoints d) 0}"
    and b: "b \<in> {0 ..< getSize (poseKeypoints d) 1}"
  let ?u = "pixel_x (pixel (bodyPart_at fr p b))" and ?v = "pixel_y (pixel (bodyPart_at fr p b))"
  from published_by_matches [OF fr] spec_CameraReader_copy [of ?cam]
  have "frame_matches spec_CameraReader (?cam\<lparr>mDepthImageUsed := mDepthImage ?cam\<rparr>)
      (poseKeypoints d) fr"
    by auto
  with p b have "bodyPart_matches spec_CameraReader (?cam\<lparr>mDepthImageUsed := mDepthImage ?cam\<rparr>)
      (poseKeypoints d) (getSize (poseKeypoints d) 1) p b (bodyPart_at fr p b)"
    unfolding frame_matches_def by blast
  then show point: "(point_x (point (bodyPart_at fr p b)), point_y (point (bodyPart_at fr p b)),
         point_z (point (bodyPart_at fr p b))) =
        inverse_pinhole_projection ?cam ?u ?v (mDepthImage ?cam ?u ?v)"
    by (auto simp: bodyPart_matches_def spec_CameraReader_def inverse_pinhole_projection_def)
  assume "fx ?cam \<noteq> 0 \<and> fy ?cam \<noteq> 0 \<and> mDepthImage ?cam ?u ?v \<noteq> 0"
  then show "pinhole_projection ?cam
           (point_x (point (bodyPart_at fr p b)), point_y (point (bodyPart_at fr p b)),
            point_z (point (bodyPart_at fr p b))) = (?u, ?v)"
    unfolding point by (intro pinhole_projection_inverse) simp_all
next
  assume "poseKeypoints_shape (poseKeypoints d)"
  then show "\<exists>fr. published_by w (workConsumer spec_CameraReader now (Some (d # ds)) w) = [fr]"
    using published_by_returns
      [OF _ spec_CameraReader_copy spec_CameraReader_returns, of d w now ds]
    by blast
qed

theorem keypoints_projected_by_inverse_pinhole_witness:
  "poseKeypoints_shape (poseKeypoints example_datum_real) \<and>
   (\<exists>fr. published_by example_consumer_real
            (workConsumer spec_CameraReader 100 (Some [example_datum_real])
               example_consumer_real) = [fr] \<and>
      pixel_x (pixel (bodyPart_at fr 0 1)) = 35 \<and>
      pixel_y (pixel (bodyPart_at fr 0 1)) = 45 \<and>
      mDepthImage (consumer_CameraReader example_consumer_real) 35 45 = 2 \<and>
      point_x (point (bodyPart_at fr 0 1)) = 6 \<and>
      point_y (point (bodyPart_at fr 0 1)) = 8 \<and>
      point_z (point (bodyPart_at fr 0 1)) = 2 \<and>
      pinhole_projection (consumer_CameraReader example_consumer_real) (6, 8, 2) = (35, 45))"
proof -
  let ?kp = "poseKeypoints example_datum_real"
  let ?cam = "consumer_CameraReader example_consumer_real"
  let ?w = "workConsumer spec_CameraReader 100 (Some [example_datum_real]) example_consumer_real"
  have shape: "poseKeypoints_shape ?kp"
    by (simp add: example_datum_real_def poseKeypoints_shape_def example_keypoints_real_def)
  have sizes: "getSize ?kp 0 = 1" "getSize ?kp 1 = 2" "getSize ?kp 2 = 3"
    by (simp_all add: example_datum_real_def getSize_def example_keypoints_real_def)
  have cam: "fx ?cam = 10" "fy ?cam = 10" "cx ?cam = 5" "cy ?cam = 5"
    "mDepthImage ?cam = (\<lambda>u v. 2)"
    by (simp_all add: example_consumer_real_def WUserOutput_def example_camera_def)
  note claim = keypoints_projected_by_inverse_pinhole
    [of example_consumer_real 100 example_datum_real "[]"]
  from claim [THEN conjunct2] shape
  obtain fr where one: "published_by example_consumer_real ?w = [fr]"
    by blast
  have p0: "(0::int) \<in> {0 ..< getSize ?kp 0}" and b1: "(1::int) \<in> {0 ..< getSize ?kp 1}"
    by (simp_all add: sizes)
  have "fr \<in> set (published_by example_consumer_real ?w)"
    by (simp add: one)
  note part01 = bspec [OF bspec [OF bspec [OF claim [THEN conjunct1] this] p0] b1]
  from published_by_returns
    [OF shape spec_CameraReader_copy spec_CameraReader_returns, of example_consumer_real 100 "[]"]
    one
  have "persons fr = keypoint_persons spec_CameraReader
      (?cam\<lparr>mDepthImageUsed := mDepthImage ?cam\<rparr>) ?kp"
    by auto
  moreover have "bodyParts (keypoint_persons spec_CameraReader
        (?cam\<lparr>mDepthImageUsed := mDepthImage ?cam\<rparr>) ?kp ! nat 0) ! nat 1 =
      keypoint_bodyPart spec_CameraReader (?cam\<lparr>mDepthImageUsed := mDepthImage ?cam\<rparr>) ?kp 0 1"
    by (rule keypoint_persons_bodyPart) (simp_all add: sizes)
  ultimately have "bodyPart_at fr 0 1 =
      keypoint_bodyPart spec_CameraReader (?cam\<lparr>mDepthImageUsed := mDepthImage ?cam\<rparr>) ?kp 0 1"
    by (simp add: bodyPart_at_def)
  then have px: "pixel_x (pixel (bodyPart_at fr 0 1)) = 35"
    "pixel_y (pixel (bodyPart_at fr 0 1)) = 45"
    by (simp_all add: keypoint_bodyPart_def Let_def keypoint_def baseIndex_def sizes)
      (simp_all add: example_datum_real_def example_keypoints_real_def)
  from part01 [THEN conjunct1] have pt: "point_x (point (bodyPart_at fr 0 1)) = 6"
    "point_y (point (bodyPart_at fr 0 1)) = 8" "point_z (point (bodyPart_at fr 0 1)) = 2"
    by (simp_all add: px cam inverse_pinhole_projection_def)
  from part01 [THEN conjunct2] have "pinhole_projection ?cam (6, 8, 2) = (35, 45)"
    by (simp add: px pt cam)
  with shape one px pt cam(5) show ?thesis
    by (intro conjI exI [of _ fr]) simp_all
qed

text \<open>
  C6. One message per processed frame. A call of the consumer with a datum list that is
  neither null nor empty hands exactly one message to the publisher, the frame message
  \<open>mFrame\<close> as the call leaves it, when its \<open>try\<close> block raises nothing, and none when
  the block ends in an exception; the block raises nothing when the keypoint array has
  the documented shape and the camera reader raises nothing on it. A call with a null
  or an empty datum list publishes nothing. No call removes a published message or
  publishes more than one.
\<close>

theorem one_publish_per_frame:
  "(workConsumer_try reader now (Some (d # ds)) w = (None, w') \<longrightarrow>
      published_by w (workConsumer reader now (Some (d # ds)) w) =
      [mFrame (workConsumer reader now (Some (d # ds)) w)]) \<and>
   (workConsumer_try reader now (Some (d # ds)) w = (Some e, w') \<longrightarrow>
      published_by w (workConsumer reader now (Some (d # ds)) w) = []) \<and>
   (poseKeypoints_shape (poseKeypoints d) \<and>
    copyLatestDepthImage reader (consumer_CameraReader w) = Inr cam \<and>
    compute3DPoint_returns reader cam (poseKeypoints d) \<longrightarrow>
      fst (workConsumer_try reader now (Some (d # ds)) w) = None \<and>
      published_by w (workConsumer reader now (Some (d # ds)) w) =
      [mFrame (workConsumer reader now (Some (d # ds)) w)]) \<and>
   (datumsPtr = None \<or> datumsPtr = Some [] \<longrightarrow>
      published_by w (workConsumer reader now datumsPtr w) = []) \<and>
   published (workConsumer reader now datumsPtr w) =
     published w @ published_by w (workConsumer reader now datumsPtr w) \<and>
   length (published_by w (workConsumer reader now datumsPtr w)) \<le> 1"
proof -
  have returns: "fst (workConsumer_try reader now (Some (d # ds)) w) = None"
    if "poseKeypoints_shape (poseKeypoints d)"
      "copyLatestDepthImage reader (consumer_CameraReader w) = Inr cam"
      "compute3DPoint_returns reader cam (poseKeypoints d)"
    by (simp add: workConsumer_try_publishes [OF that])
  show ?thesis
    using published_by_completes [of reader now d ds w w']
      published_by_raises [of reader now "Some (d # ds)" w e w']
      returns
      published_by_returns [of d reader w cam now ds]
      published_by_idle [of datumsPtr w reader now]
      published_grows [of reader now datumsPtr w]
    by blast
qed

theorem one_publish_per_frame_witness:
  "poseKeypoints_shape (poseKeypoints (example_datum example_keypoints)) \<and>
   copyLatestDepthImage (example_reader (Inr example_image))
     (consumer_CameraReader example_consumer) = Inr (4, 4) \<and>
   compute3DPoint_returns (example_reader (Inr example_image)) (4, 4)
     (poseKeypoints (example_datum example_keypoints)) \<and>
   fst (workConsumer_try (example_reader (Inr example_image)) 100
     (Some [example_datum example_keypoints]) example_consumer) = None \<and>
   published_by example_consumer
     (workConsumer (example_reader (Inr example_image)) 100
        (Some [example_datum example_keypoints]) example_consumer) =
     [mFrame (workConsumer (example_reader (Inr example_image)) 100
        (Some [example_datum example_keypoints]) example_consumer)] \<and>
   fst (workConsumer_try (example_reader (Inr example_image)) 100
     (Some [example_datum example_keypoints_outside]) example_consumer) =
     Some (std_exception ''pixel outside the depth image'') \<and>
   published_by example_consumer
     (workConsumer (example_reader (Inr example_image)) 100
        (Some [example_datum example_keypoints_outside]) example_consumer) = [] \<and>
   published_by example_consumer
     (workConsumer (example_reader (Inr example_image)) 100 None example_consumer) = [] \<and>
   published_by example_consumer
     (workConsumer (example_reader (Inr example_image)) 100 (Some []) example_consumer) = []"
proof -
  let ?reader = "example_reader (Inr example_image)"
  let ?good = "Some [example_datum example_keypoints]"
  let ?bad = "Some [example_datum example_keypoints_outside]"
  note shape = example_shape
  have copy: "copyLatestDepthImage ?reader (consumer_CameraReader example_consumer) = Inr (4, 4)"
    by (simp add: example_copy_any example_consumer_def WUserOutput_def)
  note returns = example_returns [of "Inr example_image" "(4, 4)"]
  have completes: "workConsumer_try ?reader 100 ?good example_consumer =
      (None, snd (workConsumer_try ?reader 100 ?good example_consumer))"
    by (simp add: workConsumer_try_publishes [OF shape copy returns])
  note raises = example_raises [of "Inr example_image"]
  note claim = one_publish_per_frame
    [of ?reader 100 "example_datum example_keypoints" "[]" example_consumer
      "snd (workConsumer_try ?reader 100 ?good example_consumer)" _ "(4, 4)"]
  note claim_raises = one_publish_per_frame
    [of ?reader 100 "example_datum example_keypoints_outside" "[]" example_consumer _
      "std_exception ''pixel outside the depth image''"]
  have one: "published_by example_consumer (workConsumer ?reader 100 ?good example_consumer) =
      [mFrame (workConsumer ?reader 100 ?good example_consumer)]"
    using claim [THEN conjunct1] completes by blast
  have completed: "fst (workConsumer_try ?reader 100 ?good example_consumer) = None"
    using claim [THEN conjunct2, THEN conjunct2, THEN conjunct1] shape copy returns by blast
  have none: "published_by example_consumer
      (workConsumer ?reader 100 ?bad example_consumer) = []"
    using claim_raises [THEN conjunct2, THEN conjunct1] raises by blast
  have raised: "fst (workConsumer_try ?reader 100 ?bad example_consumer) =
      Some (std_exception ''pixel outside the depth image'')"
    by (simp add: raises)
  have idle: "published_by example_consumer (workConsumer ?reader 100 None example_consumer) = []"
    "published_by example_consumer (workConsumer ?reader 100 (Some []) example_consumer) = []"
    using one_publish_per_frame
      [of ?reader 100 "example_datum example_keypoints" "[]" example_consumer _ _ "(4, 4)" None]
      one_publish_per_frame
      [of ?reader 100 "example_datum example_keypoints" "[]" example_consumer _ _ "(4, 4)"
        "Some []"]
    by simp_all
  from shape copy returns completed one raised none idle show ?thesis
    by simp
qed

text \<open>
  Without the condition the statement fails: the call below has a datum list of one
  datum, the keypoint array of that datum has the documented shape, the reader raises at
  line 147, and the publisher receives nothing.
\<close>

theorem one_publish_per_frame_counterexample:
  "Some [example_datum example_keypoints_outside] \<noteq> None \<and>
   [example_datum example_keypoints_outside] \<noteq> [] \<and>
   poseKeypoints_shape (poseKeypoints (example_datum example_keypoints_outside)) \<and>
   published (workConsumer (example_reader (Inr example_image)) 100
      (Some [example_datum example_keypoints_outside]) example_consumer) =
   published example_consumer \<and>
   published_by example_consumer
     (workConsumer (example_reader (Inr example_image)) 100
        (Some [example_datum example_keypoints_outside]) example_consumer) = []"
proof -
  have shape: "poseKeypoints_shape (poseKeypoints (example_datum example_keypoints_outside))"
    by (simp add: example_datum_def poseKeypoints_shape_def example_keypoints_outside_def)
  note raised = example_raises [of "Inr example_image"]
  have none: "published_by example_consumer
     (workConsumer (example_reader (Inr example_image)) 100
        (Some [example_datum example_keypoints_outside]) example_consumer) = []"
    using raised by (rule published_by_raises)
  have same: "published (workConsumer (example_reader (Inr example_image)) 100
      (Some [example_datum example_keypoints_outside]) example_consumer) =
      published example_consumer"
    using workConsumer_try_raises [OF raised] raised by (simp add: workConsumer_def)
  from shape none same show ?thesis by simp
qed

text \<open>
  C7. When the latest colour image of the camera reader is not empty, \<open>workProducer\<close>
  returns a vector of exactly one datum, whose \<open>cvInputData\<close> is that image, and the
  producer is left as it was.
\<close>

theorem producer_passes_color_frame:
  assumes "getColorFrame reader (producer_CameraReader w) = Inr colorImage"
    and "\<not> Mat_empty colorImage"
  shows "\<exists>datum. workProducer reader throttle w = (Some [datum], w) \<and>
           cvInputData datum = colorImage"
  using assms by (simp add: workProducer_def workProducer_try_def)

theorem producer_passes_color_frame_witness:
  "getColorFrame (example_reader (Inr example_image))
     (producer_CameraReader example_producer) = Inr example_image \<and>
   \<not> Mat_empty example_image \<and>
   (\<exists>datum. workProducer (example_reader (Inr example_image)) False example_producer =
              (Some [datum], example_producer) \<and>
            cvInputData datum = example_image)"
proof -
  have img: "getColorFrame (example_reader (Inr example_image))
      (producer_CameraReader example_producer) = Inr example_image"
    by (simp add: example_reader_def)
  have full: "\<not> Mat_empty example_image"
    by (simp add: Mat_empty_def example_image_def)
  from producer_passes_color_frame [OF img full, of False] img full
  show ?thesis by simp
qed

text \<open>
  C8. The persons of a call depend on the keypoints of the current datum and on the depth
  data just copied, not on earlier calls. Take two consumers in any two states, the same
  keypoint array, and depth data after \<open>copyLatestDepthImage\<close> on which
  \<open>compute3DPoint\<close> answers alike. Then the two calls leave the same persons in the frame
  message, and the frames they publish hold the same persons.
\<close>

theorem persons_independent_of_history:
  assumes copy1: "copyLatestDepthImage reader (consumer_CameraReader w1) = Inr c1"
    and copy2: "copyLatestDepthImage reader (consumer_CameraReader w2) = Inr c2"
    and depth: "compute3DPoint reader c1 = compute3DPoint reader c2"
    and keypoints: "poseKeypoints d1 = poseKeypoints d2"
  shows "persons (mFrame (workConsumer reader now1 (Some (d1 # ds1)) w1)) =
         persons (mFrame (workConsumer reader now2 (Some (d2 # ds2)) w2)) \<and>
         map persons (drop (length (published w1))
           (published (workConsumer reader now1 (Some (d1 # ds1)) w1))) =
         map persons (drop (length (published w2))
           (published (workConsumer reader now2 (Some (d2 # ds2)) w2)))"
proof -
  obtain err ps where fill: "fill_persons reader c2 (poseKeypoints d2) = (err, ps)"
    by (cases "fill_persons reader c2 (poseKeypoints d2)")
  then have fill1: "fill_persons reader c1 (poseKeypoints d1) = (err, ps)"
    using fill_persons_same_lookup [OF depth] keypoints by simp
  show ?thesis
    by (cases err)
      (simp_all add: workConsumer_def workConsumer_try_fill copy1 copy2 fill fill1)
qed


theorem persons_independent_of_history_witness:
  "copyLatestDepthImage (example_reader (Inr example_image))
     (consumer_CameraReader example_consumer) = Inr (4, 4) \<and>
   copyLatestDepthImage (example_reader (Inr example_image))
     (consumer_CameraReader example_consumer_used) = Inr (4, 4) \<and>
   persons (mFrame example_consumer) \<noteq> persons (mFrame example_consumer_used) \<and>
   published example_consumer \<noteq> published example_consumer_used \<and>
   persons (mFrame (workConsumer (example_reader (Inr example_image)) 100
      (Some [example_datum example_keypoints]) example_consumer)) =
   persons (mFrame (workConsumer (example_reader (Inr example_image)) 200
      (Some [example_datum example_keypoints]) example_consumer_used)) \<and>
   map persons (drop (length (published example_consumer))
     (published (workConsumer (example_reader (Inr example_image)) 100
        (Some [example_datum example_keypoints]) example_consumer))) =
   map persons (drop (length (published example_consumer_used))
     (published (workConsumer (example_reader (Inr example_image)) 200
        (Some [example_datum example_keypoints]) example_consumer_used)))"
proof -
  have copy1: "copyLatestDepthImage (example_reader (Inr example_image))
      (consumer_CameraReader example_consumer) = Inr (4, 4)"
    and copy2: "copyLatestDepthImage (example_reader (Inr example_image))
      (consumer_CameraReader example_consumer_used) = Inr (4, 4)"
    by (simp_all add: example_copy_any example_consumer_def WUserOutput_def
        example_consumer_used_def)
  have before: "persons (mFrame example_consumer) \<noteq> persons (mFrame example_consumer_used)"
    "published example_consumer \<noteq> published example_consumer_used"
    by (simp_all add: example_consumer_def WUserOutput_def example_consumer_used_def)
  from persons_independent_of_history
      [of "example_reader (Inr example_image)" example_consumer "(4, 4)"
        example_consumer_used "(4, 4)" "example_datum example_keypoints"
        "example_datum example_keypoints" 100 "[]" 200 "[]", OF copy1 copy2 refl refl]
    copy1 copy2 before
  show ?thesis by simp
qed

text \<open>
  C9. The frame id is set by the constructor and no call of the consumer changes it:
  the frame message of a new consumer carries the \<open>frameId\<close> it was given, a call leaves
  the frame id of the frame message as it found it, and every frame published in a run of
  a new consumer carries that \<open>frameId\<close>.
\<close>

theorem frame_id_fixed:
  "frame_id (header (mFrame (WUserOutput framePublisher sPtrCameraReader frameId))) = frameId \<and>
   frame_id (header (mFrame (workConsumer reader now datumsPtr w))) =
     frame_id (header (mFrame w)) \<and>
   (\<forall>f \<in> set (published (run_consumer reader calls (WUserOutput [] sPtrCameraReader frameId))).
      frame_id (header f) = frameId)"
  using run_consumer_frame_id [of "WUserOutput [] sPtrCameraReader frameId" frameId reader calls]
    workConsumer_mFrame_published [of reader now datumsPtr w]
  by (simp add: WUserOutput_def)

theorem frame_id_fixed_witness:
  "length (published (run_consumer (example_reader (Inr example_image))
      [(100::int, (4, 0), Some [example_datum example_keypoints]),
       (200, (5, 4), Some [example_datum example_keypoints])]
      (WUserOutput [] (4, 0) ''camera_color_optical_frame''))) = 2 \<and>
   map (\<lambda>f. stamp (header f)) (published (run_consumer (example_reader (Inr example_image))
      [(100::int, (4, 0), Some [example_datum example_keypoints]),
       (200, (5, 4), Some [example_datum example_keypoints])]
      (WUserOutput [] (4, 0) ''camera_color_optical_frame''))) = [100, 200] \<and>
   map (\<lambda>f. frame_id (header f)) (published (run_consumer (example_reader (Inr example_image))
      [(100::int, (4, 0), Some [example_datum example_keypoints]),
       (200, (5, 4), Some [example_datum example_keypoints])]
      (WUserOutput [] (4, 0) ''camera_color_optical_frame''))) =
     [''camera_color_optical_frame'', ''camera_color_optical_frame'']"
proof -
  let ?run = "run_consumer (example_reader (Inr example_image))
      [(100::int, (4, 0), Some [example_datum example_keypoints]),
       (200, (5, 4), Some [example_datum example_keypoints])]
      (WUserOutput [] (4, 0) ''camera_color_optical_frame'')"
  have two: "length (published ?run) = 2"
    and stamps: "map (\<lambda>f. stamp (header f)) (published ?run) = [100, 200]"
    by (simp_all add: example_call) (simp_all add: WUserOutput_def)
  from frame_id_fixed [of "[]" "(4, 0)" "''camera_color_optical_frame''"
      "example_reader (Inr example_image)" "0::int" None "WUserOutput [] (4, 0) []"
      "[(100::int, (4, 0), Some [example_datum example_keypoints]),
        (200, (5, 4), Some [example_datum example_keypoints])]"]
  have all: "\<forall>f \<in> set (published ?run). frame_id (header f) = ''camera_color_optical_frame''"
    by blast
  from two obtain f1 f2 where frames: "published ?run = [f1, f2]"
    by (auto simp: length_Suc_conv numeral_2_eq_2)
  have "map (\<lambda>f. frame_id (header f)) (published ?run) =
      [''camera_color_optical_frame'', ''camera_color_optical_frame'']"
    using all unfolding frames by simp
  with two stamps show ?thesis by simp
qed

text \<open>
  C10. The flat index of the consumer reads what the multi-index reads. On an array of
  three or more dimensions, for every person \<open>p\<close> and body part \<open>b\<close>,
  \<open>poseKeypoints[baseIndex]\<close>, \<open>poseKeypoints[baseIndex + 1]\<close> and
  \<open>poseKeypoints[baseIndex + 2]\<close> with
  \<open>baseIndex = getSize(2) * (p * bodyPartCount + b)\<close> give what
  \<open>poseKeypoints[{p, b, 0}]\<close>, \<open>poseKeypoints[{p, b, 1}]\<close> and
  \<open>poseKeypoints[{p, b, 2}]\<close> give; and on a keypoint array of the documented shape, for
  every person and body part of the array, all six reads succeed and return the same x,
  y and score.
\<close>

theorem flat_index_is_multi_index:
  "(3 \<le> length (mSize kp) \<longrightarrow>
      Array_at kp (baseIndex kp (getSize kp 1) p b) = Array_at_indexes kp [p, b, 0] \<and>
      Array_at kp (baseIndex kp (getSize kp 1) p b + 1) = Array_at_indexes kp [p, b, 1] \<and>
      Array_at kp (baseIndex kp (getSize kp 1) p b + 2) = Array_at_indexes kp [p, b, 2]) \<and>
   (poseKeypoints_shape kp \<and> 0 \<le> p \<and> p < getSize kp 0 \<and> 0 \<le> b \<and> b < getSize kp 1 \<longrightarrow>
      (\<exists>x y sc.
         Array_at kp (baseIndex kp (getSize kp 1) p b) = Inr x \<and>
         Array_at_indexes kp [p, b, 0] = Inr x \<and>
         Array_at kp (baseIndex kp (getSize kp 1) p b + 1) = Inr y \<and>
         Array_at_indexes kp [p, b, 1] = Inr y \<and>
         Array_at kp (baseIndex kp (getSize kp 1) p b + 2) = Inr sc \<and>
         Array_at_indexes kp [p, b, 2] = Inr sc))"
proof -
  have multi: "Array_at_indexes kp [p, b, c] = Array_at kp (baseIndex kp (getSize kp 1) p b + c)"
    if "3 \<le> length (mSize kp)" for c
    using that baseIndex_getIndex [of kp p b c] by (simp add: Array_at_indexes_def)
  have general: "Array_at kp (baseIndex kp (getSize kp 1) p b) = Array_at_indexes kp [p, b, 0] \<and>
      Array_at kp (baseIndex kp (getSize kp 1) p b + 1) = Array_at_indexes kp [p, b, 1] \<and>
      Array_at kp (baseIndex kp (getSize kp 1) p b + 2) = Array_at_indexes kp [p, b, 2]"
    if "3 \<le> length (mSize kp)"
    using multi [OF that, of 0] multi [OF that, of 1] multi [OF that, of 2] by simp
  have shaped: "\<exists>x y sc.
         Array_at kp (baseIndex kp (getSize kp 1) p b) = Inr x \<and>
         Array_at_indexes kp [p, b, 0] = Inr x \<and>
         Array_at kp (baseIndex kp (getSize kp 1) p b + 1) = Inr y \<and>
         Array_at_indexes kp [p, b, 1] = Inr y \<and>
         Array_at kp (baseIndex kp (getSize kp 1) p b + 2) = Inr sc \<and>
         Array_at_indexes kp [p, b, 2] = Inr sc"
    if shape: "poseKeypoints_shape kp" and p: "0 \<le> p" "p < getSize kp 0"
      and b: "0 \<le> b" "b < getSize kp 1"
  proof -
    from shape p have three: "3 \<le> length (mSize kp)"
      by (auto simp: poseKeypoints_shape_def getSize_def)
    have flat: "Array_at kp (baseIndex kp (getSize kp 1) p b + c) = Inr (keypoint kp p b c)"
      if "0 \<le> c" "c < 3" for c
      using shape p b that by (rule Array_at_keypoint)
    from flat [of 0] flat [of 1] flat [of 2] general [OF three]
    show ?thesis by simp
  qed
  from general shaped show ?thesis by blast
qed

theorem flat_index_is_multi_index_witness:
  "poseKeypoints_shape example_keypoints \<and> (0::int) < getSize example_keypoints 0 \<and>
   (1::int) < getSize example_keypoints 1 \<and>
   Array_at example_keypoints (baseIndex example_keypoints (getSize example_keypoints 1) 0 1) = Inr 30 \<and>
   Array_at_indexes example_keypoints [0, 1, 0] = Inr 30 \<and>
   Array_at example_keypoints (baseIndex example_keypoints (getSize example_keypoints 1) 0 1 + 1) = Inr 40 \<and>
   Array_at_indexes example_keypoints [0, 1, 1] = Inr 40 \<and>
   Array_at example_keypoints (baseIndex example_keypoints (getSize example_keypoints 1) 0 1 + 2) = Inr 8 \<and>
   Array_at_indexes example_keypoints [0, 1, 2] = Inr 8"
proof -
  have shape: "poseKeypoints_shape example_keypoints"
    by (simp add: poseKeypoints_shape_def example_keypoints_def)
  have p: "(0::int) < getSize example_keypoints 0" and b: "(1::int) < getSize example_keypoints 1"
    by (simp_all add: getSize_def example_keypoints_def)
  have reads: "Array_at example_keypoints (baseIndex example_keypoints (getSize example_keypoints 1) 0 1) = Inr 30"
    "Array_at example_keypoints (baseIndex example_keypoints (getSize example_keypoints 1) 0 1 + 1) = Inr 40"
    "Array_at example_keypoints (baseIndex example_keypoints (getSize example_keypoints 1) 0 1 + 2) = Inr 8"
    by (simp_all add: Array_at_def baseIndex_def getSize_def example_keypoints_def)
  from flat_index_is_multi_index [of example_keypoints 0 1, THEN conjunct2] reads shape p b
  show ?thesis by auto
qed

end
